theory Spec2Isabelle
  imports Main "HOL-Library.Word"
begin

unbundle bit_operations_syntax

section \<open>Data model of the encryption subsystem (PdfEncrypt.cpp)\<close>

text \<open>
  Buffers of \<^verbatim>\<open>unsigned char\<close> are lists of 8-bit words; \<^verbatim>\<open>std::string_view\<close>
  passwords and document identifiers are read byte by byte by the code and are byte
  lists too. \<^verbatim>\<open>size_t\<close> is a 64-bit word, \<^verbatim>\<open>unsigned\<close> and the permission
  flag set are 32-bit words.
\<close>

type_synonym byte = "8 word"
type_synonym bytes = "8 word list"

datatype PdfErrorCode =
    UnsupportedFilter
  | InvalidEncryptionDict
  | InvalidPassword
  | InternalLogic
  | UnexpectedEOF
  | NotImplemented
  | InvalidEnumValue
  | InvalidDataType
  | NoObject
  | AssertFailed

datatype PdfEncryptionAlgorithm = AlgNone | RC4V1 | RC4V2 | AESV2 | AESV3R5 | AESV3R6

datatype PdfAuthResult = Unkwnon | Failed | User | Owner

text \<open>
  \<^verbatim>\<open>PdfKeyLength\<close> is an enumeration whose values are the key lengths in bits
  (\<^verbatim>\<open>L40 = 40\<close>, ..., \<^verbatim>\<open>L128 = 128\<close>, \<^verbatim>\<open>L256 = 256\<close>), with \<^verbatim>\<open>Unknown = 0\<close>;
  the code casts it to and from \<^verbatim>\<open>unsigned\<close>, so it is a natural number here.
\<close>

definition KeyLength_Unknown :: nat where
  "KeyLength_Unknown = 0"

definition PERMS_DEFAULT :: "32 word" where
  "PERMS_DEFAULT = 0xFFFFF0C0"

definition AES_IV_LENGTH :: nat where
  "AES_IV_LENGTH = 16"

definition MD5_DIGEST_LENGTH :: nat where
  "MD5_DIGEST_LENGTH = 16"

text \<open>
  The class hierarchy PdfEncrypt / PdfEncryptMD5Base / PdfEncryptRC4 / PdfEncryptAESV2 /
  PdfEncryptAESV3 is one record tagged by \<open>m_Algorithm\<close>; the three buffers of
  PdfEncryptAESV3 are empty for the other classes.
\<close>

record PdfEncrypt =
  m_Algorithm :: PdfEncryptionAlgorithm
  m_rValue :: nat
  m_KeyLength :: nat
  m_pValue :: "32 word"
  m_uValue :: bytes
  m_oValue :: bytes
  m_EncryptMetadata :: bool
  m_IsParsed :: bool
  m_initialized :: bool
  m_userPass :: bytes
  m_ownerPass :: bytes
  m_ueValue :: bytes
  m_oeValue :: bytes
  m_permsValue :: bytes

record PdfReference =
  ObjectNumber :: "32 word"
  GenerationNumber :: "16 word"

record PdfEncryptContext =
  m_encryptionKey :: bytes
  m_AuthResult :: PdfAuthResult
  m_documentId :: bytes

text \<open>\<^verbatim>\<open>std::memcpy(dst, src, n)\<close> on buffers that hold at least \<open>n\<close> bytes.\<close>

definition memcpy :: "bytes \<Rightarrow> bytes \<Rightarrow> nat \<Rightarrow> bytes" where
  "memcpy dst src n = take n src @ drop n dst"

text \<open>The default constructor \<^verbatim>\<open>PdfEncrypt::PdfEncrypt()\<close>.\<close>

definition PdfEncrypt_new :: PdfEncrypt where
  "PdfEncrypt_new =
     \<lparr> m_Algorithm = AlgNone, m_rValue = 0, m_KeyLength = 0, m_pValue = 0,
       m_uValue = replicate 48 0, m_oValue = replicate 48 0,
       m_EncryptMetadata = False, m_IsParsed = False, m_initialized = False,
       m_userPass = [], m_ownerPass = [],
       m_ueValue = [], m_oeValue = [], m_permsValue = [] \<rparr>"

definition PdfEncryptContext_new :: PdfEncryptContext where
  "PdfEncryptContext_new =
     \<lparr> m_encryptionKey = replicate 32 0, m_AuthResult = Unkwnon, m_documentId = [] \<rparr>"

definition GetKeyLengthBytes :: "PdfEncrypt \<Rightarrow> nat" where
  "GetKeyLengthBytes e = m_KeyLength e div 8"

subsection \<open>Creation from plaintext passwords\<close>

text \<open>
  \<^verbatim>\<open>GetEnabledEncryptionAlgorithms\<close>: AESV2, AESV3R5 and AESV3R6 always, RC4V1 and RC4V2
  when the crypto backend has RC4 (\<^verbatim>\<open>ssl::Rc4() != nullptr\<close>, the parameter \<open>hasRc4\<close>).
\<close>

definition IsEncryptionEnabled :: "bool \<Rightarrow> PdfEncryptionAlgorithm \<Rightarrow> bool" where
  "IsEncryptionEnabled hasRc4 algorithm =
     (case algorithm of
        AlgNone \<Rightarrow> False
      | RC4V1 \<Rightarrow> hasRc4
      | RC4V2 \<Rightarrow> hasRc4
      | AESV2 \<Rightarrow> True
      | AESV3R5 \<Rightarrow> True
      | AESV3R6 \<Rightarrow> True)"

definition InitFromScratch ::
  "bytes \<Rightarrow> bytes \<Rightarrow> PdfEncryptionAlgorithm \<Rightarrow> nat \<Rightarrow> nat \<Rightarrow> 32 word \<Rightarrow> bool \<Rightarrow>
   PdfEncrypt \<Rightarrow> PdfErrorCode + PdfEncrypt" where
  "InitFromScratch userPassword ownerPassword algorithm keyLength revision pValue encryptedMetadata e =
     (if \<not> keyLength div 8 \<le> 32 then Inl AssertFailed
      else Inr (e\<lparr> m_userPass := userPassword, m_ownerPass := ownerPassword,
                   m_Algorithm := algorithm, m_KeyLength := keyLength,
                   m_rValue := revision, m_pValue := pValue,
                   m_EncryptMetadata := encryptedMetadata \<rparr>))"

definition PdfEncryptRC4_scratch ::
  "bytes \<Rightarrow> bytes \<Rightarrow> 32 word \<Rightarrow> PdfEncryptionAlgorithm \<Rightarrow> nat \<Rightarrow> PdfErrorCode + PdfEncrypt" where
  "PdfEncryptRC4_scratch userPassword ownerPassword protection algorithm keyLength =
     (case algorithm of
        RC4V1 \<Rightarrow>
          if keyLength = KeyLength_Unknown then
            InitFromScratch userPassword ownerPassword algorithm 40 2
              (PERMS_DEFAULT OR protection) True PdfEncrypt_new
          else if keyLength \<noteq> 40 then Inl InvalidEncryptionDict
          else InitFromScratch userPassword ownerPassword algorithm keyLength 2
              (PERMS_DEFAULT OR protection) True PdfEncrypt_new
      | RC4V2 \<Rightarrow>
          if keyLength = KeyLength_Unknown then
            InitFromScratch userPassword ownerPassword algorithm 128 3
              (PERMS_DEFAULT OR protection) True PdfEncrypt_new
          else if keyLength \<in> set [40, 48, 56, 64, 72, 80, 88, 96, 104, 112, 120, 128] then
            InitFromScratch userPassword ownerPassword algorithm keyLength 3
              (PERMS_DEFAULT OR protection) True PdfEncrypt_new
          else Inl InvalidEncryptionDict
      | _ \<Rightarrow> Inl InvalidEnumValue)"

definition PdfEncryptAESV2_scratch :: "bytes \<Rightarrow> bytes \<Rightarrow> 32 word \<Rightarrow> PdfErrorCode + PdfEncrypt" where
  "PdfEncryptAESV2_scratch userPassword ownerPassword protection =
     InitFromScratch userPassword ownerPassword AESV2 128 4 (PERMS_DEFAULT OR protection) True
       PdfEncrypt_new"

text \<open>
  The constructor of PdfEncryptAESV3 zero-initialises \<open>m_ueValue\<close>, \<open>m_oeValue\<close> (32
  bytes each) and \<open>m_permsValue\<close> (16 bytes); \<open>revision\<close> is 5 or 6.
\<close>

definition PdfEncryptAESV3_scratch ::
  "bytes \<Rightarrow> bytes \<Rightarrow> nat \<Rightarrow> 32 word \<Rightarrow> PdfErrorCode + PdfEncrypt" where
  "PdfEncryptAESV3_scratch userPassword ownerPassword revision protection =
     InitFromScratch userPassword ownerPassword (if revision = 6 then AESV3R6 else AESV3R5)
       256 revision (PERMS_DEFAULT OR protection) True
       (PdfEncrypt_new\<lparr> m_ueValue := replicate 32 0, m_oeValue := replicate 32 0,
                         m_permsValue := replicate 16 0 \<rparr>)"

definition Create ::
  "bool \<Rightarrow> bytes \<Rightarrow> bytes \<Rightarrow> 32 word \<Rightarrow> PdfEncryptionAlgorithm \<Rightarrow> nat \<Rightarrow> PdfErrorCode + PdfEncrypt" where
  "Create hasRc4 userPassword ownerPassword protection algorithm keyLength =
     (if \<not> IsEncryptionEnabled hasRc4 algorithm then Inl UnsupportedFilter
      else case algorithm of
        AESV3R5 \<Rightarrow>
          if keyLength \<noteq> KeyLength_Unknown \<and> keyLength \<noteq> 256 then Inl InvalidEncryptionDict
          else PdfEncryptAESV3_scratch userPassword ownerPassword 5 protection
      | AESV3R6 \<Rightarrow>
          if keyLength \<noteq> KeyLength_Unknown \<and> keyLength \<noteq> 256 then Inl InvalidEncryptionDict
          else PdfEncryptAESV3_scratch userPassword ownerPassword 6 protection
      | RC4V2 \<Rightarrow> PdfEncryptRC4_scratch userPassword ownerPassword protection algorithm keyLength
      | RC4V1 \<Rightarrow> PdfEncryptRC4_scratch userPassword ownerPassword protection algorithm keyLength
      | AESV2 \<Rightarrow>
          if keyLength \<noteq> KeyLength_Unknown \<and> keyLength \<noteq> 128 then Inl InvalidEncryptionDict
          else PdfEncryptAESV2_scratch userPassword ownerPassword protection
      | AlgNone \<Rightarrow> Inl InvalidEnumValue)"

subsection \<open>Stream length accounting\<close>

definition CalculateStreamLength_RC4 :: "64 word \<Rightarrow> 64 word" where
  "CalculateStreamLength_RC4 len = len"

definition CalculateStreamLength_AESV2 :: "64 word \<Rightarrow> 64 word" where
  "CalculateStreamLength_AESV2 len =
     (let realLength = ((len + 15) AND NOT 15) + of_nat AES_IV_LENGTH
      in if len mod 16 = 0 then realLength + 16 else realLength)"

definition CalculateStreamLength_AESV3 :: "64 word \<Rightarrow> 64 word" where
  "CalculateStreamLength_AESV3 len =
     (let realLength = ((len + 15) AND NOT 15) + of_nat AES_IV_LENGTH
      in if len mod 16 = 0 then realLength + 16 else realLength)"

definition CalculateStreamLength :: "PdfEncrypt \<Rightarrow> 64 word \<Rightarrow> 64 word" where
  "CalculateStreamLength e len =
     (case m_Algorithm e of
        AESV2 \<Rightarrow> CalculateStreamLength_AESV2 len
      | AESV3R5 \<Rightarrow> CalculateStreamLength_AESV3 len
      | AESV3R6 \<Rightarrow> CalculateStreamLength_AESV3 len
      | _ \<Rightarrow> CalculateStreamLength_RC4 len)"


section \<open>External primitives\<close>

text \<open>
  MD5, the SHA-2 family, AES, SASLprep and the C runtime's \<^verbatim>\<open>rand\<close> are not code of
  this repository (OpenSSL, the private SASLprep helper, libc). They are parameters of
  the model, collected in one record. A digest is a word of the digest's width, so that
  its length is fixed by its type; \<open>digest_bytes\<close> lays it out as the byte array the
  code receives.
  \<^item> \<open>AesCbc key iv data\<close>: what \<^verbatim>\<open>EVP_EncryptUpdate\<close> writes for whole blocks of
    \<open>data\<close> in CBC mode (AES-128 for a 16-byte key, AES-256 for a 32-byte key);
  \<^item> \<open>AesCbcFinal key iv data\<close>: the same followed by \<^verbatim>\<open>EVP_EncryptFinal_ex\<close> with
    padding enabled;
  \<^item> \<open>AesCbcDecrypt key iv data\<close>: \<^verbatim>\<open>EVP_DecryptUpdate\<close> with padding disabled;
  \<^item> \<open>Rand seed k\<close>: the value of the \<open>k\<close>-th call of \<^verbatim>\<open>rand()\<close> after
    \<^verbatim>\<open>srand(seed)\<close>.
\<close>

record Backend =
  MD5 :: "bytes \<Rightarrow> 128 word"
  SHA256 :: "bytes \<Rightarrow> 256 word"
  SHA384 :: "bytes \<Rightarrow> 384 word"
  SHA512 :: "bytes \<Rightarrow> 512 word"
  AesCbc :: "bytes \<Rightarrow> bytes \<Rightarrow> bytes \<Rightarrow> bytes"
  AesCbcFinal :: "bytes \<Rightarrow> bytes \<Rightarrow> bytes \<Rightarrow> bytes"
  AesCbcDecrypt :: "bytes \<Rightarrow> bytes \<Rightarrow> bytes \<Rightarrow> bytes"
  TrySASLprep :: "bytes \<Rightarrow> bytes option"
  Rand :: "nat \<Rightarrow> nat \<Rightarrow> nat"

definition digest_bytes :: "nat \<Rightarrow> 'a::len word \<Rightarrow> bytes" where
  "digest_bytes n w = map (\<lambda>i. ucast (drop_bit (8 * i) w)) [0..<n]"

definition ComputeMD5 :: "Backend \<Rightarrow> bytes \<Rightarrow> bytes" where
  "ComputeMD5 ssl data = digest_bytes MD5_DIGEST_LENGTH (MD5 ssl data)"

text \<open>The state of the C runtime's generator: the last seed and the number of draws since.\<close>

record RandState =
  seed :: nat
  draws :: nat

definition srand :: "nat \<Rightarrow> RandState \<Rightarrow> RandState" where
  "srand s r = \<lparr> seed = s, draws = 0 \<rparr>"

definition rand :: "Backend \<Rightarrow> RandState \<Rightarrow> nat \<times> RandState" where
  "rand ssl r = (Rand ssl (seed r) (draws r), r\<lparr> draws := draws r + 1 \<rparr>)"

section \<open>RC4\<close>

text \<open>
  \<^verbatim>\<open>PdfRC4Stream\<close>: the key schedule of the constructor and the keystream loop of
  \<^verbatim>\<open>Encrypt\<close>. \<open>rc4key\<close> and \<open>rc4last\<close> are the cache of the last key and its
  scheduled table kept in the context (\<^verbatim>\<open>RC4EncryptContext\<close>).
\<close>

record PdfRC4Stream =
  m_rc4 :: bytes
  m_a :: nat
  m_b :: nat

definition rc4_schedule_step :: "bytes \<Rightarrow> nat \<Rightarrow> nat \<Rightarrow> nat \<times> bytes \<Rightarrow> nat \<times> bytes" where
  "rc4_schedule_step key keylen i st =
     (case st of (j, rc4) \<Rightarrow>
        let t = unat (rc4 ! i);
            j' = (j + t + unat (key ! (i mod keylen))) mod 256
        in (j', (rc4[i := rc4 ! j'])[j' := of_nat t]))"

definition rc4_schedule :: "bytes \<Rightarrow> nat \<Rightarrow> bytes" where
  "rc4_schedule key keylen =
     snd (fold (rc4_schedule_step key keylen) [0..<256] (0, map of_nat [0..<256]))"

definition PdfRC4Stream_new ::
  "bytes \<Rightarrow> bytes \<Rightarrow> bytes \<Rightarrow> nat \<Rightarrow> PdfRC4Stream \<times> bytes \<times> bytes" where
  "PdfRC4Stream_new rc4key rc4last key keylen =
     (if take keylen key \<noteq> take keylen rc4key then
        let rc4 = rc4_schedule key keylen
        in (\<lparr> m_rc4 = rc4, m_a = 0, m_b = 0 \<rparr>, memcpy rc4key key keylen, memcpy rc4last rc4 256)
      else (\<lparr> m_rc4 = take 256 rc4last, m_a = 0, m_b = 0 \<rparr>, rc4key, rc4last))"

text \<open>One round of the loop of \<^verbatim>\<open>PdfRC4Stream::Encrypt\<close>: the keystream byte \<open>k\<close> and the new state.\<close>

definition rc4_next :: "PdfRC4Stream \<Rightarrow> byte \<times> PdfRC4Stream" where
  "rc4_next s =
     (let a = (m_a s + 1) mod 256;
          t = m_rc4 s ! a;
          b = (m_b s + unat t) mod 256;
          rc4 = ((m_rc4 s)[a := m_rc4 s ! b])[b := t];
          k = rc4 ! ((unat (rc4 ! a) + unat (rc4 ! b)) mod 256)
      in (k, \<lparr> m_rc4 = rc4, m_a = a, m_b = b \<rparr>))"

fun PdfRC4Stream_Encrypt :: "PdfRC4Stream \<Rightarrow> bytes \<Rightarrow> bytes \<times> PdfRC4Stream" where
  "PdfRC4Stream_Encrypt s [] = ([], s)"
| "PdfRC4Stream_Encrypt s (x # buffer) =
     (case rc4_next s of (k, s1) \<Rightarrow>
        case PdfRC4Stream_Encrypt s1 buffer of (out, s') \<Rightarrow> ((x XOR k) # out, s'))"

text \<open>
  \<^verbatim>\<open>RC4Encrypt\<close> runs OpenSSL's RC4 with a freshly set key over \<open>textlen\<close> bytes. RC4 is
  the cipher that \<^verbatim>\<open>PdfRC4Stream\<close> implements by hand in the same file, so the model
  runs that implementation with a freshly scheduled table. It fails with InternalLogic
  when the lengths differ and when OpenSSL refuses the key length
  (\<^verbatim>\<open>EVP_CIPHER_CTX_set_key_length\<close> accepts positive lengths only). The result is
  the \<open>textlen\<close> bytes written to \<open>textout\<close>.
\<close>

definition RC4Encrypt :: "bytes \<Rightarrow> nat \<Rightarrow> bytes \<Rightarrow> nat \<Rightarrow> nat \<Rightarrow> PdfErrorCode + bytes" where
  "RC4Encrypt key keylen textin textlen textoutlen =
     (if textlen \<noteq> textoutlen then Inl InternalLogic
      else if keylen = 0 then Inl InternalLogic
      else Inr (fst (PdfRC4Stream_Encrypt
                  \<lparr> m_rc4 = rc4_schedule key keylen, m_a = 0, m_b = 0 \<rparr> (take textlen textin))))"

section \<open>Family A: MD5 and RC4 key derivation (PdfEncryptMD5Base)\<close>

definition padding :: bytes where
  "padding =
     [0x28, 0xBF, 0x4E, 0x5E, 0x4E, 0x75, 0x8A, 0x41, 0x64, 0x00, 0x4E, 0x56, 0xFF, 0xFA, 0x01, 0x08,
      0x2E, 0x2E, 0x00, 0xB6, 0xD0, 0x68, 0x3E, 0x80, 0x2F, 0x0C, 0xA9, 0xFE, 0x64, 0x53, 0x69, 0x7A]"

definition PadPassword :: "bytes \<Rightarrow> bytes" where
  "PadPassword password =
     (let m = (if length password > 32 then 32 else length password)
      in take m password @ take (32 - m) padding)"

text \<open>The 50 re-hashing rounds of Revision 3 and 4, each over the first \<open>keyLength\<close> bytes.\<close>

definition md5_rehash :: "Backend \<Rightarrow> nat \<Rightarrow> bytes \<Rightarrow> bytes" where
  "md5_rehash ssl keyLength digest = ((\<lambda>d. ComputeMD5 ssl (take keyLength d)) ^^ 50) digest"

definition owner_mkey :: "bool \<Rightarrow> bytes \<Rightarrow> nat \<Rightarrow> nat \<Rightarrow> bytes" where
  "owner_mkey authenticate digest keyLength i =
     map (\<lambda>j. (digest ! j) XOR (if authenticate then of_nat (19 - i) else of_nat i)) [0..<keyLength]"

fun owner_rounds :: "bool \<Rightarrow> bytes \<Rightarrow> nat \<Rightarrow> nat list \<Rightarrow> bytes \<Rightarrow> PdfErrorCode + bytes" where
  "owner_rounds authenticate digest keyLength [] ownerKey = Inr ownerKey"
| "owner_rounds authenticate digest keyLength (i # rest) ownerKey =
     (case RC4Encrypt (owner_mkey authenticate digest keyLength i) keyLength ownerKey 32 32 of
        Inl e \<Rightarrow> Inl e
      | Inr out \<Rightarrow> owner_rounds authenticate digest keyLength rest (memcpy ownerKey out 32))"

definition ComputeOwnerKey ::
  "Backend \<Rightarrow> bytes \<Rightarrow> bytes \<Rightarrow> nat \<Rightarrow> nat \<Rightarrow> bool \<Rightarrow> PdfErrorCode + bytes" where
  "ComputeOwnerKey ssl userPad ownerPad keyLength revision authenticate =
     (if \<not> keyLength \<le> MD5_DIGEST_LENGTH then Inl AssertFailed
      else
        let digest = ComputeMD5 ssl (take 32 ownerPad)
        in if revision = 3 \<or> revision = 4 then
             owner_rounds authenticate (md5_rehash ssl keyLength digest) keyLength [0..<20]
               (take 32 userPad)
           else RC4Encrypt digest 5 userPad 32 32)"


text \<open>
  \<^verbatim>\<open>ComputeEncryptionKey\<close> writes the encryption key (its first \<open>keyLength\<close> bytes) and
  the user key (U). \<open>userKey\<close> and \<open>encryptionKey\<close> are the buffers as they are before
  the call; the result is the pair of buffers after it. The document identifier's length
  is cast to \<^verbatim>\<open>unsigned\<close>.
\<close>

fun user_rounds :: "bytes \<Rightarrow> nat \<Rightarrow> nat list \<Rightarrow> bytes \<Rightarrow> PdfErrorCode + bytes" where
  "user_rounds encryptionKey keyLength [] userKey = Inr userKey"
| "user_rounds encryptionKey keyLength (k # rest) userKey =
     (case RC4Encrypt (map (\<lambda>j. (encryptionKey ! j) XOR of_nat k) [0..<keyLength]) keyLength
             userKey 16 16 of
        Inl e \<Rightarrow> Inl e
      | Inr out \<Rightarrow> user_rounds encryptionKey keyLength rest (memcpy userKey out 16))"

definition permission_bytes :: "32 word \<Rightarrow> bytes" where
  "permission_bytes pValue =
     [ucast (drop_bit 0 pValue AND 0xFF), ucast (drop_bit 8 pValue AND 0xFF),
      ucast (drop_bit 16 pValue AND 0xFF), ucast (drop_bit 24 pValue AND 0xFF)]"

definition ComputeEncryptionKey ::
  "Backend \<Rightarrow> bytes \<Rightarrow> bytes \<Rightarrow> bytes \<Rightarrow> 32 word \<Rightarrow> nat \<Rightarrow> nat \<Rightarrow> bool \<Rightarrow> bytes \<Rightarrow> bytes \<Rightarrow>
   PdfErrorCode + (bytes \<times> bytes)" where
  "ComputeEncryptionKey ssl documentId userPad ownerKey pValue keyLength revision encryptMetadata
       userKey encryptionKey =
     (if \<not> keyLength \<le> MD5_DIGEST_LENGTH then Inl AssertFailed
      else
        let ext = permission_bytes pValue;
            docIdLength = length documentId mod 2 ^ 32;
            docId = take docIdLength documentId;
            digest0 = ComputeMD5 ssl (take 32 userPad @ take 32 ownerKey @ ext @ docId @
                        (if \<not> encryptMetadata then [0xFF, 0xFF, 0xFF, 0xFF] else []));
            digest = (if revision = 3 \<or> revision = 4 then md5_rehash ssl keyLength digest0
                      else digest0);
            encryptionKey' = memcpy encryptionKey digest keyLength
        in if revision = 3 \<or> revision = 4 then
             let digest2 = ComputeMD5 ssl (take 32 padding @ docId);
                 userKey0 = take 16 digest2 @ replicate 16 0 @ drop 32 userKey
             in case user_rounds encryptionKey' keyLength [0..<20] userKey0 of
                  Inl e \<Rightarrow> Inl e
                | Inr userKey' \<Rightarrow> Inr (userKey', encryptionKey')
           else
             case RC4Encrypt encryptionKey' keyLength padding 32 32 of
               Inl e \<Rightarrow> Inl e
             | Inr out \<Rightarrow> Inr (memcpy userKey out 32, encryptionKey'))"

definition CheckKey :: "PdfEncrypt \<Rightarrow> bytes \<Rightarrow> bytes \<Rightarrow> PdfErrorCode + bool" where
  "CheckKey e key1 key2 =
     (let keyLength = GetKeyLengthBytes e
      in if \<not> keyLength \<le> 32 then Inl AssertFailed
         else Inr (list_all (\<lambda>k. key1 ! k = key2 ! k) [0..<keyLength]))"

subsection \<open>Object key\<close>

definition CreateObjKey ::
  "Backend \<Rightarrow> PdfEncrypt \<Rightarrow> bytes \<Rightarrow> PdfReference \<Rightarrow> PdfErrorCode + (bytes \<times> nat)" where
  "CreateObjKey ssl e encryptionKey objref =
     (let n = (ucast (ObjectNumber objref) :: 32 word);
          g = (ucast (GenerationNumber objref) :: 32 word);
          keyLength = GetKeyLengthBytes e
      in if \<not> keyLength \<le> MD5_DIGEST_LENGTH then Inl AssertFailed
         else
           let nkey = map (\<lambda>j. encryptionKey ! j) [0..<keyLength] @
                      [ucast (0xFF AND n), ucast (0xFF AND drop_bit 8 n),
                       ucast (0xFF AND drop_bit 16 n),
                       ucast (0xFF AND g), ucast (0xFF AND drop_bit 8 g)] @
                      (if m_Algorithm e = AESV2 then [0x73, 0x41, 0x6C, 0x54] else []);
               objkey = ComputeMD5 ssl nkey;
               pnKeyLen = (if keyLength \<le> 11 then keyLength + 5 else 16)
           in Inr (objkey, pnKeyLen))"

subsection \<open>Key generation and authentication, RC4 and AES-128\<close>

text \<open>
  \<^verbatim>\<open>GenerateEncryptionKey\<close> writes the descriptor's \<open>m_oValue\<close> and \<open>m_uValue\<close> and the
  context's key; the model returns the descriptor with both written, and the key.
\<close>

definition GenerateEncryptionKey_RC4 ::
  "Backend \<Rightarrow> PdfEncrypt \<Rightarrow> bytes \<Rightarrow> bytes \<Rightarrow> PdfErrorCode + (PdfEncrypt \<times> bytes)" where
  "GenerateEncryptionKey_RC4 ssl e documentId encryptionKey =
     (let userpswd = PadPassword (m_userPass e);
          ownerpswd = PadPassword (m_ownerPass e);
          keyLength = GetKeyLengthBytes e
      in case ComputeOwnerKey ssl userpswd ownerpswd keyLength (m_rValue e) False of
           Inl err \<Rightarrow> Inl err
         | Inr ownerKey \<Rightarrow>
             let oValue = memcpy (m_oValue e) ownerKey 32
             in case ComputeEncryptionKey ssl documentId userpswd oValue (m_pValue e) keyLength
                       (m_rValue e) (m_EncryptMetadata e) (m_uValue e) encryptionKey of
                  Inl err \<Rightarrow> Inl err
                | Inr (uValue, key) \<Rightarrow> Inr (e\<lparr> m_oValue := oValue, m_uValue := uValue \<rparr>, key))"

definition GenerateEncryptionKey_AESV2 ::
  "Backend \<Rightarrow> PdfEncrypt \<Rightarrow> bytes \<Rightarrow> bytes \<Rightarrow> PdfErrorCode + (PdfEncrypt \<times> bytes)" where
  "GenerateEncryptionKey_AESV2 ssl e documentId encryptionKey =
     (let userpswd = PadPassword (m_userPass e);
          ownerpswd = PadPassword (m_ownerPass e);
          keyLength = GetKeyLengthBytes e
      in case ComputeOwnerKey ssl userpswd ownerpswd keyLength (m_rValue e) False of
           Inl err \<Rightarrow> Inl err
         | Inr ownerKey \<Rightarrow>
             let oValue = memcpy (m_oValue e) ownerKey 32
             in case ComputeEncryptionKey ssl documentId userpswd oValue (m_pValue e) keyLength
                       (m_rValue e) (m_EncryptMetadata e) (m_uValue e) encryptionKey of
                  Inl err \<Rightarrow> Inl err
                | Inr (uValue, key) \<Rightarrow> Inr (e\<lparr> m_oValue := oValue, m_uValue := uValue \<rparr>, key))"

text \<open>
  \<^verbatim>\<open>Authenticate\<close> returns the result and leaves the key in \<open>encryptionKey\<close>. The local
  array \<open>userKey\<close> is written in full by \<open>ComputeEncryptionKey\<close> before it is read; it
  starts as 32 zero bytes here.
\<close>

definition Authenticate_RC4 ::
  "Backend \<Rightarrow> PdfEncrypt \<Rightarrow> bytes \<Rightarrow> bytes \<Rightarrow> bytes \<Rightarrow> PdfErrorCode + (PdfAuthResult \<times> bytes)" where
  "Authenticate_RC4 ssl e password documentId encryptionKey =
     (let pswd = PadPassword password;
          keyLength = GetKeyLengthBytes e
      in case ComputeEncryptionKey ssl documentId pswd (m_oValue e) (m_pValue e) keyLength
                (m_rValue e) (m_EncryptMetadata e) (replicate 32 0) encryptionKey of
           Inl err \<Rightarrow> Inl err
         | Inr (userKey, key1) \<Rightarrow>
             (case CheckKey e userKey (m_uValue e) of
                Inl err \<Rightarrow> Inl err
              | Inr success \<Rightarrow>
                  if success then Inr (User, key1)
                  else
                    (case ComputeOwnerKey ssl (m_oValue e) pswd keyLength (m_rValue e) True of
                       Inl err \<Rightarrow> Inl err
                     | Inr userpswd \<Rightarrow>
                         (case ComputeEncryptionKey ssl documentId userpswd (m_oValue e) (m_pValue e)
                                 keyLength (m_rValue e) (m_EncryptMetadata e) userKey key1 of
                            Inl err \<Rightarrow> Inl err
                          | Inr (userKey2, key2) \<Rightarrow>
                              (case CheckKey e userKey2 (m_uValue e) of
                                 Inl err \<Rightarrow> Inl err
                               | Inr success2 \<Rightarrow>
                                   Inr (if success2 then Owner else Failed, key2))))))"

definition Authenticate_AESV2 ::
  "Backend \<Rightarrow> PdfEncrypt \<Rightarrow> bytes \<Rightarrow> bytes \<Rightarrow> bytes \<Rightarrow> PdfErrorCode + (PdfAuthResult \<times> bytes)" where
  "Authenticate_AESV2 ssl e password documentId encryptionKey =
     (let pswd = PadPassword password;
          keyLength = GetKeyLengthBytes e
      in case ComputeEncryptionKey ssl documentId pswd (m_oValue e) (m_pValue e) keyLength
                (m_rValue e) (m_EncryptMetadata e) (replicate 32 0) encryptionKey of
           Inl err \<Rightarrow> Inl err
         | Inr (userKey, key1) \<Rightarrow>
             (case CheckKey e userKey (m_uValue e) of
                Inl err \<Rightarrow> Inl err
              | Inr success \<Rightarrow>
                  if success then Inr (User, key1)
                  else
                    (case ComputeOwnerKey ssl (m_oValue e) pswd keyLength (m_rValue e) True of
                       Inl err \<Rightarrow> Inl err
                     | Inr userpswd \<Rightarrow>
                         (case ComputeEncryptionKey ssl documentId userpswd (m_oValue e) (m_pValue e)
                                 keyLength (m_rValue e) (m_EncryptMetadata e) userKey key1 of
                            Inl err \<Rightarrow> Inl err
                          | Inr (userKey2, key2) \<Rightarrow>
                              (case CheckKey e userKey2 (m_uValue e) of
                                 Inl err \<Rightarrow> Inl err
                               | Inr success2 \<Rightarrow>
                                   Inr (if success2 then Owner else Failed, key2))))))"


section \<open>Family B: SHA-2 and AES-256 key derivation (PdfEncryptAESV3)\<close>

definition preprocessPassword :: "Backend \<Rightarrow> bytes \<Rightarrow> PdfErrorCode + bytes" where
  "preprocessPassword ssl password =
     (case TrySASLprep ssl password of
        None \<Rightarrow> Inl InvalidPassword
      | Some prepd \<Rightarrow> Inr (take (if length prepd > 127 then 127 else length prepd) prepd))"

text \<open>
  The hardening loop of \<^verbatim>\<open>computeHash\<close> for Revision 6. The loop variables are the
  round index \<open>i\<close>, the buffer \<open>data\<close> as the previous round left it (its first
  \<open>dataLen\<close> bytes; empty before the first round), \<open>blockLen\<close> and \<open>block\<close>. Only the
  first \<open>blockLen\<close> bytes of \<open>block\<close> are ever read, and each round writes exactly
  those, so \<open>block\<close> is the list of these bytes. The loop condition reads
  \<^verbatim>\<open>data[dataLen - 1]\<close> only when \<^verbatim>\<open>i < 64\<close> fails. The assertion
  \<^verbatim>\<open>PODOFO_ASSERT((unsigned)dataOutMoved == dataLen)\<close> is the error AssertFailed. The
  result is the number of rounds run and the final block.
\<close>

function hardening_loop ::
  "Backend \<Rightarrow> bytes \<Rightarrow> bytes option \<Rightarrow> nat \<Rightarrow> bytes \<Rightarrow> nat \<Rightarrow> bytes \<Rightarrow> PdfErrorCode + (nat \<times> bytes)" where
  "hardening_loop ssl pswd uValue i data blockLen block =
     (if (if i < 64 then True else i < 32 + unat (last data)) then
        let data0 = pswd @ take blockLen block @ (case uValue of None \<Rightarrow> [] | Some u \<Rightarrow> take 48 u);
            dataLen = 64 * length data0;
            data1 = concat (replicate 64 data0);
            data2 = AesCbc ssl (take 16 block) (take 16 (drop 16 block)) data1
        in if length data2 \<noteq> dataLen then Inl AssertFailed
           else
             let sum = sum_list (map unat (take 16 data2));
                 blockLen' = 32 + (sum mod 3) * 16;
                 block' = (if blockLen' = 32 then digest_bytes 32 (SHA256 ssl data2)
                           else if blockLen' = 48 then digest_bytes 48 (SHA384 ssl data2)
                           else digest_bytes 64 (SHA512 ssl data2))
             in hardening_loop ssl pswd uValue (i + 1) data2 blockLen' block'
      else Inr (i, block))"
  by pat_completeness auto
termination
proof (relation "measure (\<lambda>(ssl, pswd, uValue, i, data, blockLen, block). 287 - i)")
  show "wf (measure (\<lambda>(ssl, pswd, uValue, i, data, blockLen, block). 287 - i))"
    by simp
next
  fix ssl :: Backend and pswd :: bytes and uValue :: "bytes option" and i :: nat
    and data :: bytes and blockLen :: nat and block :: bytes
    and x xa xb xc xd xe xf
  assume c: "if i < 64 then True else i < 32 + unat (last data)"
  have "unat (last data) < 256"
    using unsigned_less[of "last data", where ?'a = nat] by simp
  with c have "i < 287"
    by (auto split: if_splits)
  then show "((ssl, pswd, uValue, i + 1, xc, xe, xf), (ssl, pswd, uValue, i, data, blockLen, block))
        \<in> measure (\<lambda>(ssl, pswd, uValue, i, data, blockLen, block). 287 - i)"
    by simp
qed

declare hardening_loop.simps [simp del]

definition computeHash_rounds ::
  "Backend \<Rightarrow> bytes \<Rightarrow> nat \<Rightarrow> bytes \<Rightarrow> bytes option \<Rightarrow> PdfErrorCode + (nat \<times> bytes)" where
  "computeHash_rounds ssl pswd revision salt uValue =
     (if \<not> length pswd \<le> 127 then Inl AssertFailed
      else
        let hashValue = digest_bytes 32 (SHA256 ssl
                          (pswd @ take 8 salt @ (case uValue of None \<Rightarrow> [] | Some u \<Rightarrow> take 48 u)))
        in if revision > 5 then
             (case hardening_loop ssl pswd uValue 0 [] 32 hashValue of
                Inl err \<Rightarrow> Inl err
              | Inr (rounds, block) \<Rightarrow> Inr (rounds, take 32 block))
           else Inr (0, hashValue))"

text \<open>\<^verbatim>\<open>computeHash\<close>: the 32 bytes left in \<open>hashValue\<close>.\<close>

definition computeHash ::
  "Backend \<Rightarrow> bytes \<Rightarrow> nat \<Rightarrow> bytes \<Rightarrow> bytes option \<Rightarrow> PdfErrorCode + bytes" where
  "computeHash ssl pswd revision salt uValue =
     (case computeHash_rounds ssl pswd revision salt uValue of
        Inl err \<Rightarrow> Inl err
      | Inr (rounds, hashValue) \<Rightarrow> Inr hashValue)"

text \<open>The salts: eight rounds, each drawing one byte of \<open>vSalt\<close> and then one of \<open>kSalt\<close>.\<close>

definition random_byte :: "Backend \<Rightarrow> RandState \<Rightarrow> byte \<times> RandState" where
  "random_byte ssl r = (case rand ssl r of (v, r') \<Rightarrow> (of_nat (v mod 255), r'))"

fun random_bytes :: "Backend \<Rightarrow> nat \<Rightarrow> RandState \<Rightarrow> bytes \<times> RandState" where
  "random_bytes ssl 0 r = ([], r)"
| "random_bytes ssl (Suc n) r =
     (case random_byte ssl r of (b, r1) \<Rightarrow>
        case random_bytes ssl n r1 of (bs, r2) \<Rightarrow> (b # bs, r2))"

fun generate_salts :: "Backend \<Rightarrow> nat \<Rightarrow> RandState \<Rightarrow> (bytes \<times> bytes) \<times> RandState" where
  "generate_salts ssl 0 r = (([], []), r)"
| "generate_salts ssl (Suc n) r =
     (case random_byte ssl r of (v, r1) \<Rightarrow>
        case random_byte ssl r1 of (k, r2) \<Rightarrow>
          case generate_salts ssl n r2 of ((vSalt, kSalt), r3) \<Rightarrow> ((v # vSalt, k # kSalt), r3))"

definition computeEncryptionKey ::
  "Backend \<Rightarrow> nat \<Rightarrow> RandState \<Rightarrow> nat \<Rightarrow> bytes \<Rightarrow> PdfErrorCode + (bytes \<times> RandState)" where
  "computeEncryptionKey ssl now r keyLength encryptionKey =
     (if \<not> keyLength \<le> 32 then Inl AssertFailed
      else case random_bytes ssl keyLength (srand (now mod 2 ^ 32) r) of
             (key, r') \<Rightarrow> Inr (memcpy encryptionKey key keyLength, r'))"

definition computeUserKey ::
  "Backend \<Rightarrow> RandState \<Rightarrow> bytes \<Rightarrow> nat \<Rightarrow> nat \<Rightarrow> bytes \<Rightarrow> bytes \<Rightarrow> bytes \<Rightarrow>
   PdfErrorCode + (bytes \<times> bytes \<times> RandState)" where
  "computeUserKey ssl r userpswd revision keyLength encryptionKey uValue ueValue =
     (case generate_salts ssl 8 r of ((vSalt, kSalt), r') \<Rightarrow>
        case computeHash ssl userpswd revision vSalt None of
          Inl err \<Rightarrow> Inl err
        | Inr hashValue \<Rightarrow>
            let uValue' = memcpy uValue (take 32 hashValue @ vSalt @ kSalt) 48
            in case computeHash ssl userpswd revision kSalt None of
                 Inl err \<Rightarrow> Inl err
               | Inr hashValue2 \<Rightarrow>
                   if \<not> keyLength \<le> 32 then Inl AssertFailed
                   else Inr (uValue',
                             memcpy ueValue
                               (AesCbc ssl hashValue2 (replicate 16 0) (take keyLength encryptionKey))
                               keyLength,
                             r'))"

definition computeOwnerKey ::
  "Backend \<Rightarrow> RandState \<Rightarrow> bytes \<Rightarrow> nat \<Rightarrow> nat \<Rightarrow> bytes \<Rightarrow> bytes \<Rightarrow> bytes \<Rightarrow> bytes \<Rightarrow>
   PdfErrorCode + (bytes \<times> bytes \<times> RandState)" where
  "computeOwnerKey ssl r ownerpswd revision keyLength encryptionKey uValue oValue oeValue =
     (case generate_salts ssl 8 r of ((vSalt, kSalt), r') \<Rightarrow>
        case computeHash ssl ownerpswd revision vSalt (Some uValue) of
          Inl err \<Rightarrow> Inl err
        | Inr hashValue \<Rightarrow>
            let oValue' = memcpy oValue (take 32 hashValue @ vSalt @ kSalt) 48
            in case computeHash ssl ownerpswd revision kSalt (Some uValue) of
                 Inl err \<Rightarrow> Inl err
               | Inr hashValue2 \<Rightarrow>
                   if \<not> keyLength \<le> 32 then Inl AssertFailed
                   else Inr (oValue',
                             memcpy oeValue
                               (AesCbc ssl hashValue2 (replicate 16 0) (take keyLength encryptionKey))
                               keyLength,
                             r'))"

definition perms_bytes :: "PdfEncrypt \<Rightarrow> bytes" where
  "perms_bytes e =
     permission_bytes (m_pValue e) @ [0xFF, 0xFF, 0xFF, 0xFF] @
     [if m_EncryptMetadata e then 0x54 else 0x46, 0x61, 0x64, 0x62] @ [0, 0, 0, 0]"

definition GenerateEncryptionKey_AESV3 ::
  "Backend \<Rightarrow> nat \<Rightarrow> RandState \<Rightarrow> PdfEncrypt \<Rightarrow> bytes \<Rightarrow>
   PdfErrorCode + (PdfEncrypt \<times> bytes \<times> RandState)" where
  "GenerateEncryptionKey_AESV3 ssl now r e encryptionKey =
     (case preprocessPassword ssl (m_userPass e) of
        Inl err \<Rightarrow> Inl err
      | Inr userpswd \<Rightarrow>
     (case preprocessPassword ssl (m_ownerPass e) of
        Inl err \<Rightarrow> Inl err
      | Inr ownerpswd \<Rightarrow>
     (let keyLength = GetKeyLengthBytes e
      in case computeEncryptionKey ssl now r keyLength encryptionKey of
        Inl err \<Rightarrow> Inl err
      | Inr (key, r1) \<Rightarrow>
     (case computeUserKey ssl r1 userpswd (m_rValue e) keyLength key (m_uValue e) (m_ueValue e) of
        Inl err \<Rightarrow> Inl err
      | Inr (uValue, ueValue, r2) \<Rightarrow>
     (case computeOwnerKey ssl r2 ownerpswd (m_rValue e) keyLength key uValue (m_oValue e)
             (m_oeValue e) of
        Inl err \<Rightarrow> Inl err
      | Inr (oValue, oeValue, r3) \<Rightarrow>
          Inr (e\<lparr> m_uValue := uValue, m_ueValue := ueValue, m_oValue := oValue,
                  m_oeValue := oeValue,
                  m_permsValue := memcpy (m_permsValue e)
                                    (AesCbc ssl key (replicate 16 0) (perms_bytes e)) 16 \<rparr>,
               key, r3))))))"

definition Authenticate_AESV3 ::
  "Backend \<Rightarrow> PdfEncrypt \<Rightarrow> bytes \<Rightarrow> bytes \<Rightarrow> PdfErrorCode + (PdfAuthResult \<times> bytes)" where
  "Authenticate_AESV3 ssl e password encryptionKey =
     (case preprocessPassword ssl password of
        Inl err \<Rightarrow> Inl err
      | Inr pswd_sasl \<Rightarrow>
     (case computeHash ssl pswd_sasl (m_rValue e) (drop 32 (m_uValue e)) None of
        Inl err \<Rightarrow> Inl err
      | Inr hashValue \<Rightarrow>
     (case CheckKey e hashValue (m_uValue e) of
        Inl err \<Rightarrow> Inl err
      | Inr success \<Rightarrow>
          if success then
            (case computeHash ssl pswd_sasl (m_rValue e) (drop 40 (m_uValue e)) None of
               Inl err \<Rightarrow> Inl err
             | Inr hashValue2 \<Rightarrow>
                 Inr (User, memcpy encryptionKey
                              (AesCbcDecrypt ssl hashValue2 (replicate 16 0) (take 32 (m_ueValue e))) 32))
          else
            (case computeHash ssl pswd_sasl (m_rValue e) (drop 32 (m_oValue e)) (Some (m_uValue e)) of
               Inl err \<Rightarrow> Inl err
             | Inr hashValue3 \<Rightarrow>
            (case CheckKey e hashValue3 (m_oValue e) of
               Inl err \<Rightarrow> Inl err
             | Inr success2 \<Rightarrow>
                 if success2 then
                   (case computeHash ssl pswd_sasl (m_rValue e) (drop 40 (m_oValue e))
                           (Some (m_uValue e)) of
                      Inl err \<Rightarrow> Inl err
                    | Inr hashValue4 \<Rightarrow>
                        Inr (Owner, memcpy encryptionKey
                                      (AesCbcDecrypt ssl hashValue4 (replicate 16 0)
                                         (take 32 (m_oeValue e))) 32))
                 else Inr (Failed, encryptionKey))))))"

subsection \<open>The descriptor's entry points\<close>

definition GenerateEncryptionKey ::
  "Backend \<Rightarrow> nat \<Rightarrow> RandState \<Rightarrow> PdfEncrypt \<Rightarrow> bytes \<Rightarrow> bytes \<Rightarrow>
   PdfErrorCode + (PdfEncrypt \<times> bytes \<times> RandState)" where
  "GenerateEncryptionKey ssl now r e documentId encryptionKey =
     (case m_Algorithm e of
        AESV3R5 \<Rightarrow> GenerateEncryptionKey_AESV3 ssl now r e encryptionKey
      | AESV3R6 \<Rightarrow> GenerateEncryptionKey_AESV3 ssl now r e encryptionKey
      | AESV2 \<Rightarrow>
          (case GenerateEncryptionKey_AESV2 ssl e documentId encryptionKey of
             Inl err \<Rightarrow> Inl err | Inr (e', key) \<Rightarrow> Inr (e', key, r))
      | _ \<Rightarrow>
          (case GenerateEncryptionKey_RC4 ssl e documentId encryptionKey of
             Inl err \<Rightarrow> Inl err | Inr (e', key) \<Rightarrow> Inr (e', key, r)))"

definition IsAuthenticated :: "PdfEncryptContext \<Rightarrow> bool" where
  "IsAuthenticated context = (m_AuthResult context = User \<or> m_AuthResult context = Owner)"

definition clearSensitiveInfo :: "PdfEncrypt \<Rightarrow> PdfEncrypt" where
  "clearSensitiveInfo e =
     e\<lparr> m_userPass := replicate (length (m_userPass e)) 0,
        m_ownerPass := replicate (length (m_ownerPass e)) 0 \<rparr>"

definition EnsureEncryptionInitialized ::
  "Backend \<Rightarrow> nat \<Rightarrow> RandState \<Rightarrow> PdfEncrypt \<Rightarrow> bytes \<Rightarrow> PdfEncryptContext \<Rightarrow>
   PdfErrorCode + (PdfEncrypt \<times> PdfEncryptContext \<times> RandState)" where
  "EnsureEncryptionInitialized ssl now r e documentId context =
     (if m_initialized e then
        (if \<not> IsAuthenticated context then Inl InternalLogic else Inr (e, context, r))
      else
        case GenerateEncryptionKey ssl now r e documentId (m_encryptionKey context) of
          Inl err \<Rightarrow> Inl err
        | Inr (e', key, r') \<Rightarrow>
            Inr ((clearSensitiveInfo e')\<lparr> m_initialized := True \<rparr>,
                 context\<lparr> m_encryptionKey := key, m_documentId := documentId,
                          m_AuthResult := Owner \<rparr>,
                 r'))"

definition Authenticate ::
  "Backend \<Rightarrow> PdfEncrypt \<Rightarrow> bytes \<Rightarrow> bytes \<Rightarrow> PdfEncryptContext \<Rightarrow>
   PdfErrorCode + PdfEncryptContext" where
  "Authenticate ssl e password documentId context =
     (case (case m_Algorithm e of
              AESV3R5 \<Rightarrow> Authenticate_AESV3 ssl e password (m_encryptionKey context)
            | AESV3R6 \<Rightarrow> Authenticate_AESV3 ssl e password (m_encryptionKey context)
            | AESV2 \<Rightarrow> Authenticate_AESV2 ssl e password documentId (m_encryptionKey context)
            | _ \<Rightarrow> Authenticate_RC4 ssl e password documentId (m_encryptionKey context)) of
        Inl err \<Rightarrow> Inl err
      | Inr (res, key) \<Rightarrow>
          Inr (context\<lparr> m_AuthResult := res, m_encryptionKey := key, m_documentId := documentId \<rparr>))"


section \<open>Encryption of strings and streams\<close>

definition generateInitialVector_AESV2 :: "Backend \<Rightarrow> bytes \<Rightarrow> bytes" where
  "generateInitialVector_AESV2 ssl documentId = ComputeMD5 ssl documentId"

definition generateInitialVector_AESV3 :: "Backend \<Rightarrow> RandState \<Rightarrow> bytes \<times> RandState" where
  "generateInitialVector_AESV3 ssl r = random_bytes ssl AES_IV_LENGTH r"

text \<open>
  \<^verbatim>\<open>AESEncrypt\<close>: AES-128 for a 16-byte key, AES-256 for a 32-byte key, InternalLogic for
  any other length; the result is the ciphertext written to \<open>textout\<close>.
\<close>

definition AESEncrypt :: "Backend \<Rightarrow> bytes \<Rightarrow> nat \<Rightarrow> bytes \<Rightarrow> bytes \<Rightarrow> PdfErrorCode + bytes" where
  "AESEncrypt ssl key keyLen iv textin =
     (if keyLen = 128 div 8 then Inr (AesCbcFinal ssl (take keyLen key) (take 16 iv) textin)
      else if keyLen = 256 div 8 then Inr (AesCbcFinal ssl (take keyLen key) (take 16 iv) textin)
      else Inl InternalLogic)"

text \<open>
  \<^verbatim>\<open>Encrypt\<close> writes the initialisation vector to the first 16 bytes of \<open>outStr\<close> and the
  ciphertext behind it; the model returns the bytes written.
\<close>

definition Encrypt_AESV2 ::
  "Backend \<Rightarrow> PdfEncrypt \<Rightarrow> bytes \<Rightarrow> PdfEncryptContext \<Rightarrow> PdfReference \<Rightarrow> PdfErrorCode + bytes" where
  "Encrypt_AESV2 ssl e inStr context objref =
     (case CreateObjKey ssl e (m_encryptionKey context) objref of
        Inl err \<Rightarrow> Inl err
      | Inr (objkey, keylen) \<Rightarrow>
          let iv = generateInitialVector_AESV2 ssl (m_documentId context)
          in case AESEncrypt ssl objkey keylen iv inStr of
               Inl err \<Rightarrow> Inl err
             | Inr cipher \<Rightarrow> Inr (iv @ cipher))"

definition Encrypt_AESV3 ::
  "Backend \<Rightarrow> RandState \<Rightarrow> PdfEncrypt \<Rightarrow> bytes \<Rightarrow> PdfEncryptContext \<Rightarrow> PdfReference \<Rightarrow>
   PdfErrorCode + (bytes \<times> RandState)" where
  "Encrypt_AESV3 ssl r e inStr context objref =
     (case generateInitialVector_AESV3 ssl r of (iv, r') \<Rightarrow>
        case AESEncrypt ssl (m_encryptionKey context) (GetKeyLengthBytes e) iv inStr of
          Inl err \<Rightarrow> Inl err
        | Inr cipher \<Rightarrow> Inr (iv @ cipher, r'))"

text \<open>
  \<^verbatim>\<open>PdfEncryptRC4::Encrypt\<close> and the entry point \<^verbatim>\<open>EncryptTo\<close>, which sizes the output
  with \<open>CalculateStreamLength\<close> and calls the descriptor's \<^verbatim>\<open>Encrypt\<close>. The state of the
  random generator is threaded through; only PdfEncryptAESV3 draws from it.
\<close>

definition Encrypt_RC4 ::
  "Backend \<Rightarrow> PdfEncrypt \<Rightarrow> bytes \<Rightarrow> PdfEncryptContext \<Rightarrow> PdfReference \<Rightarrow> nat \<Rightarrow>
   PdfErrorCode + bytes" where
  "Encrypt_RC4 ssl e inStr context objref outLen =
     (case CreateObjKey ssl e (m_encryptionKey context) objref of
        Inl err \<Rightarrow> Inl err
      | Inr (objkey, keylen) \<Rightarrow> RC4Encrypt objkey keylen inStr (length inStr) outLen)"

definition EncryptTo ::
  "Backend \<Rightarrow> RandState \<Rightarrow> PdfEncrypt \<Rightarrow> bytes \<Rightarrow> PdfEncryptContext \<Rightarrow> PdfReference \<Rightarrow>
   PdfErrorCode + (bytes \<times> RandState)" where
  "EncryptTo ssl r e view context objref =
     (if \<not> m_initialized e then Inl AssertFailed
      else
        let outputLen = unat (CalculateStreamLength e (of_nat (length view)))
        in case m_Algorithm e of
             AESV2 \<Rightarrow>
               (case Encrypt_AESV2 ssl e view context objref of
                  Inl err \<Rightarrow> Inl err | Inr out \<Rightarrow> Inr (out, r))
           | AESV3R5 \<Rightarrow> Encrypt_AESV3 ssl r e view context objref
           | AESV3R6 \<Rightarrow> Encrypt_AESV3 ssl r e view context objref
           | _ \<Rightarrow>
               (case Encrypt_RC4 ssl e view context objref outputLen of
                  Inl err \<Rightarrow> Inl err | Inr out \<Rightarrow> Inr (out, r)))"

text \<open>
  \<^verbatim>\<open>PdfAESInputStream\<close>: the constructor copies \<open>keylen\<close> bytes of the key; \<open>s_key\<close> holds
  the bytes copied.
\<close>

record PdfAESInputStream =
  s_InputStream :: bytes
  s_inputLen :: nat
  s_inputEof :: bool
  s_init :: bool
  s_key :: bytes
  s_keyLen :: nat
  s_drainLeft :: nat

definition PdfAESInputStream_new :: "bytes \<Rightarrow> nat \<Rightarrow> bytes \<Rightarrow> nat \<Rightarrow> PdfAESInputStream" where
  "PdfAESInputStream_new inputStream inputLen key keylen =
     \<lparr> s_InputStream = inputStream, s_inputLen = inputLen, s_inputEof = False, s_init = True,
       s_key = take keylen key, s_keyLen = keylen, s_drainLeft = 0 \<rparr>"

definition CreateEncryptionInputStream_AESV2 ::
  "Backend \<Rightarrow> PdfEncrypt \<Rightarrow> bytes \<Rightarrow> nat \<Rightarrow> PdfEncryptContext \<Rightarrow> PdfReference \<Rightarrow>
   PdfErrorCode + PdfAESInputStream" where
  "CreateEncryptionInputStream_AESV2 ssl e inputStream inputLen context objref =
     (case CreateObjKey ssl e (m_encryptionKey context) objref of
        Inl err \<Rightarrow> Inl err
      | Inr (objkey, keylen) \<Rightarrow> Inr (PdfAESInputStream_new inputStream inputLen objkey keylen))"

definition CreateEncryptionInputStream_AESV3 ::
  "PdfEncrypt \<Rightarrow> bytes \<Rightarrow> nat \<Rightarrow> PdfEncryptContext \<Rightarrow> PdfReference \<Rightarrow> PdfAESInputStream" where
  "CreateEncryptionInputStream_AESV3 e inputStream inputLen context objref =
     PdfAESInputStream_new inputStream inputLen (m_encryptionKey context) 32"

text \<open>
  An output stream that encrypts is a \<^verbatim>\<open>PdfRC4OutputStream\<close> (the sink and the cipher
  state); the file has no class for an AES output stream.
\<close>

datatype OutputStream = PdfRC4OutputStream bytes PdfRC4Stream

definition CreateEncryptionOutputStream_AESV2 ::
  "PdfEncrypt \<Rightarrow> bytes \<Rightarrow> PdfEncryptContext \<Rightarrow> PdfReference \<Rightarrow> PdfErrorCode + OutputStream" where
  "CreateEncryptionOutputStream_AESV2 e outputStream context objref = Inl InternalLogic"

definition CreateEncryptionOutputStream_AESV3 ::
  "PdfEncrypt \<Rightarrow> bytes \<Rightarrow> PdfEncryptContext \<Rightarrow> PdfReference \<Rightarrow> PdfErrorCode + OutputStream" where
  "CreateEncryptionOutputStream_AESV3 e outputStream context objref = Inl InternalLogic"

section \<open>Copying a descriptor\<close>

text \<open>
  The copy constructor of PdfEncryptAESV3 copies the base class and then three buffers
  with \<^verbatim>\<open>memcpy\<close>, each with the length \<^verbatim>\<open>std::size(m_permsValue)\<close>, which is 16. It
  does not initialise \<open>m_ueValue\<close> and \<open>m_oeValue\<close> before: \<open>ue0\<close> and \<open>oe0\<close> are the
  bytes these two arrays of the new object hold when the constructor starts.
\<close>

definition PdfEncryptAESV3_copy :: "PdfEncrypt \<Rightarrow> bytes \<Rightarrow> bytes \<Rightarrow> PdfEncrypt" where
  "PdfEncryptAESV3_copy rhs ue0 oe0 =
     rhs\<lparr> m_permsValue := take 16 (m_permsValue rhs),
          m_ueValue := memcpy ue0 (m_ueValue rhs) 16,
          m_oeValue := memcpy oe0 (m_oeValue rhs) 16 \<rparr>"

definition CreateFromEncrypt :: "PdfEncrypt \<Rightarrow> bytes \<Rightarrow> bytes \<Rightarrow> PdfErrorCode + PdfEncrypt" where
  "CreateFromEncrypt rhs ue0 oe0 =
     (case m_Algorithm rhs of
        RC4V1 \<Rightarrow> Inr rhs
      | RC4V2 \<Rightarrow> Inr rhs
      | AESV2 \<Rightarrow> Inr rhs
      | AESV3R5 \<Rightarrow> Inr (PdfEncryptAESV3_copy rhs ue0 oe0)
      | AESV3R6 \<Rightarrow> Inr (PdfEncryptAESV3_copy rhs ue0 oe0)
      | AlgNone \<Rightarrow> Inl InvalidEnumValue)"

section \<open>Parsing the encryption dictionary\<close>

text \<open>
  A dictionary is an association list from names to objects (a \<^verbatim>\<open>std::map\<close>; the first
  entry of a name is the one found). Modelled from the spec: the typed accessors of
  PdfObject (\<^verbatim>\<open>GetName\<close>, \<^verbatim>\<open>GetNumber\<close>, \<^verbatim>\<open>GetString\<close>) are not among the sources; the
  spec's "get-by-name returning a typed value or absence indicator" is a value of the
  asked type, or the error InvalidDataType when the object has another type.
\<close>

datatype PdfObject =
    PdfNull
  | PdfBool bool
  | PdfNumber int
  | PdfName string
  | PdfString bytes
  | PdfDict "(string \<times> PdfObject) list"












definition InitFromValues ::
  "PdfEncryptionAlgorithm \<Rightarrow> nat \<Rightarrow> nat \<Rightarrow> 32 word \<Rightarrow> bytes \<Rightarrow> bytes \<Rightarrow> bool \<Rightarrow> PdfEncrypt \<Rightarrow>
   PdfErrorCode + PdfEncrypt" where
  "InitFromValues algorithm keyLength revision pValue uValue oValue encryptedMetadata e =
     (if \<not> keyLength div 8 \<le> 32 then Inl AssertFailed
      else Inr (e\<lparr> m_Algorithm := algorithm, m_KeyLength := keyLength, m_rValue := revision,
                   m_pValue := pValue,
                   m_uValue := memcpy (m_uValue e) uValue (length uValue),
                   m_oValue := memcpy (m_oValue e) oValue (length oValue),
                   m_EncryptMetadata := encryptedMetadata,
                   m_IsParsed := True, m_initialized := True \<rparr>))"



definition PdfEncryptAESV3_parsed ::
  "bytes \<Rightarrow> bytes \<Rightarrow> bytes \<Rightarrow> bytes \<Rightarrow> 32 word \<Rightarrow> bytes \<Rightarrow> nat \<Rightarrow> PdfErrorCode + PdfEncrypt" where
  "PdfEncryptAESV3_parsed oValue oeValue uValue ueValue pValue permsValue revision =
     (if length uValue < 48 then Inl InvalidEncryptionDict
      else if length oValue < 48 then Inl InvalidEncryptionDict
      else if length ueValue < 32 then Inl InvalidEncryptionDict
      else if length oeValue < 32 then Inl InvalidEncryptionDict
      else if length permsValue < 16 then Inl InvalidEncryptionDict
      else
        case InitFromValues (if revision = 6 then AESV3R6 else AESV3R5) 256 (revision mod 256)
               pValue (take 48 uValue) (take 48 oValue) True PdfEncrypt_new of
          Inl err \<Rightarrow> Inl err
        | Inr e \<Rightarrow> Inr (e\<lparr> m_ueValue := take 32 ueValue, m_oeValue := take 32 oeValue,
                            m_permsValue := take 16 permsValue \<rparr>))"




section \<open>Helpers for stating the properties\<close>

text \<open>The low \<open>k\<close> bytes of a number, least significant first.\<close>

definition le_bytes :: "nat \<Rightarrow> nat \<Rightarrow> bytes" where
  "le_bytes k v = map (\<lambda>i. of_nat (v div 256 ^ i mod 256)) [0..<k]"

text \<open>
  The first test of \<^verbatim>\<open>Authenticate\<close> ("is it the user key?") on its own: whether a
  password passes the user-password check of a descriptor.
\<close>

definition PassesUserCheck :: "Backend \<Rightarrow> PdfEncrypt \<Rightarrow> bytes \<Rightarrow> bytes \<Rightarrow> bool" where
  "PassesUserCheck ssl e password documentId =
     (if m_Algorithm e = AESV3R5 \<or> m_Algorithm e = AESV3R6 then
        (case preprocessPassword ssl password of
           Inl err \<Rightarrow> False
         | Inr pswd_sasl \<Rightarrow>
             (case computeHash ssl pswd_sasl (m_rValue e) (drop 32 (m_uValue e)) None of
                Inl err \<Rightarrow> False
              | Inr hashValue \<Rightarrow> CheckKey e hashValue (m_uValue e) = Inr True))
      else
        (case ComputeEncryptionKey ssl documentId (PadPassword password) (m_oValue e) (m_pValue e)
                (GetKeyLengthBytes e) (m_rValue e) (m_EncryptMetadata e)
                (replicate 32 0) (replicate 32 0) of
           Inl err \<Rightarrow> False
         | Inr (userKey, key) \<Rightarrow> CheckKey e userKey (m_uValue e) = Inr True))"

section \<open>A concrete backend\<close>

text \<open>
  An instance of the external primitives for running the model on concrete inputs: the
  digests are length counts, the ciphers leave whole blocks unchanged and the generator
  counts upwards. The theorems below hold for every backend.
\<close>

definition test_backend :: Backend where
  "test_backend =
     \<lparr> MD5 = (\<lambda>data. of_nat (length data)),
       SHA256 = (\<lambda>data. of_nat (length data)),
       SHA384 = (\<lambda>data. of_nat (length data)),
       SHA512 = (\<lambda>data. of_nat (length data)),
       AesCbc = (\<lambda>key iv data. data),
       AesCbcFinal = (\<lambda>key iv data. data @ replicate (16 - length data mod 16)
                                              (of_nat (16 - length data mod 16))),
       AesCbcDecrypt = (\<lambda>key iv data. data),
       TrySASLprep = Some,
       Rand = (\<lambda>seed k. seed + k) \<rparr>"


section \<open>A concrete encryption dictionary\<close>



section \<open>Properties of RC4 and of the owner key\<close>

lemma memcpy_all: "length dst = n \<Longrightarrow> length src = n \<Longrightarrow> memcpy dst src n = src"
  by (simp add: memcpy_def)

lemma length_digest_bytes: "length (digest_bytes n w) = n"
  by (simp add: digest_bytes_def)

lemma length_ComputeMD5: "length (ComputeMD5 ssl data) = 16"
  by (simp add: ComputeMD5_def MD5_DIGEST_LENGTH_def length_digest_bytes)

lemma length_PadPassword: "length (PadPassword p) = 32"
  by (simp add: PadPassword_def Let_def padding_def)

lemma PdfRC4Stream_Encrypt_length: "length (fst (PdfRC4Stream_Encrypt s xs)) = length xs"
  by (induction xs arbitrary: s) (simp_all add: case_prod_beta)

text \<open>The cipher XORs a keystream that depends on the state only: run twice, it is the identity.\<close>

lemma PdfRC4Stream_Encrypt_twice:
  "fst (PdfRC4Stream_Encrypt s (fst (PdfRC4Stream_Encrypt s xs))) = xs"
proof (induction xs arbitrary: s)
  case Nil
  show ?case by simp
next
  case (Cons x xs)
  show ?case
    using Cons.IH by (simp add: case_prod_beta xor.assoc)
qed

lemma RC4Encrypt_length:
  "RC4Encrypt key keylen x n n = Inr y \<Longrightarrow> length y = min n (length x)"
  by (auto simp: RC4Encrypt_def PdfRC4Stream_Encrypt_length split: if_splits)

lemma RC4Encrypt_ok:
  "0 < keylen \<Longrightarrow> \<exists>y. RC4Encrypt key keylen x n n = Inr y"
  by (simp add: RC4Encrypt_def)

lemma RC4Encrypt_twice:
  assumes "RC4Encrypt key keylen x n n = Inr y" and "length x = n"
  shows "RC4Encrypt key keylen y n n = Inr x"
proof -
  have k: "keylen \<noteq> 0"
    using assms(1) by (auto simp: RC4Encrypt_def split: if_splits)
  have y: "y = fst (PdfRC4Stream_Encrypt \<lparr> m_rc4 = rc4_schedule key keylen, m_a = 0, m_b = 0 \<rparr> x)"
    using assms by (auto simp: RC4Encrypt_def split: if_splits)
  then have "length y = n"
    using assms(2) by (simp add: PdfRC4Stream_Encrypt_length)
  then show ?thesis
    using k y by (simp add: RC4Encrypt_def PdfRC4Stream_Encrypt_twice)
qed

lemma owner_rounds_app:
  "owner_rounds a d kl (xs @ ys) x =
     (case owner_rounds a d kl xs x of Inl e \<Rightarrow> Inl e | Inr y \<Rightarrow> owner_rounds a d kl ys y)"
  by (induction xs arbitrary: x) (simp_all split: sum.splits)

lemma owner_rounds_ok:
  "0 < kl \<Longrightarrow> length x = 32 \<Longrightarrow> \<exists>y. owner_rounds a d kl L x = Inr y \<and> length y = 32"
proof (induction L arbitrary: x)
  case Nil
  then show ?case by simp
next
  case (Cons i L)
  obtain out where out: "RC4Encrypt (owner_mkey a d kl i) kl x 32 32 = Inr out"
    using RC4Encrypt_ok[OF Cons.prems(1)] by blast
  then have "length out = 32"
    using RC4Encrypt_length[OF out] Cons.prems(2) by simp
  then show ?case
    using out Cons.IH[OF Cons.prems(1), of out] Cons.prems(2)
    by (simp add: memcpy_all)
qed

lemma owner_mkey_reverse: "i \<le> 19 \<Longrightarrow> owner_mkey True d kl (19 - i) = owner_mkey False d kl i"
  by (simp add: owner_mkey_def)

text \<open>
  Undoing the rounds: the authenticate direction, run over the reversed round list, takes
  the result of the encrypt direction back to its input.
\<close>

lemma owner_rounds_inverse:
  assumes "length x = 32" and "\<forall>i \<in> set L. i \<le> 19"
    and "owner_rounds False d kl L x = Inr y"
  shows "owner_rounds True d kl (map (\<lambda>i. 19 - i) (rev L)) y = Inr x"
  using assms
proof (induction L arbitrary: x)
  case Nil
  then show ?case by simp
next
  case (Cons i L)
  from Cons.prems(3) obtain out where
    out: "RC4Encrypt (owner_mkey False d kl i) kl x 32 32 = Inr out" and
    rest: "owner_rounds False d kl L (memcpy x out 32) = Inr y"
    by (auto split: sum.splits)
  have lo: "length out = 32"
    using RC4Encrypt_length[OF out] Cons.prems(1) by simp
  then have m: "memcpy x out 32 = out"
    using Cons.prems(1) by (simp add: memcpy_all)
  have inv: "RC4Encrypt (owner_mkey False d kl i) kl out 32 32 = Inr x"
    using RC4Encrypt_twice[OF out Cons.prems(1)] .
  have "owner_rounds True d kl (map (\<lambda>i. 19 - i) (rev L)) y = Inr out"
    using Cons.IH[of out] lo Cons.prems(2) rest m by simp
  moreover have "i \<le> 19"
    using Cons.prems(2) by simp
  ultimately show ?case
    using inv lo Cons.prems(1)
    by (simp add: owner_rounds_app owner_mkey_reverse memcpy_all)
qed

lemma rounds_reversed: "map (\<lambda>i. 19 - i) (rev [0..<20]) = [0..<20]"
  by (simp add: upt_rec)

lemma ComputeOwnerKey_roundtrip:
  assumes "revision = 3 \<or> revision = 4" and "0 < keyLength" and "keyLength \<le> 16"
    and "length userPad = 32"
  shows "\<exists>oValue. ComputeOwnerKey ssl userPad ownerPad keyLength revision False = Inr oValue
               \<and> length oValue = 32
               \<and> ComputeOwnerKey ssl oValue ownerPad keyLength revision True = Inr userPad"
proof -
  let ?d = "md5_rehash ssl keyLength (ComputeMD5 ssl (take 32 ownerPad))"
  obtain oValue where o: "owner_rounds False ?d keyLength [0..<20] userPad = Inr oValue"
    and lo: "length oValue = 32"
    using owner_rounds_ok[OF assms(2) assms(4)] by blast
  have "owner_rounds True ?d keyLength (map (\<lambda>i. 19 - i) (rev [0..<20])) oValue = Inr userPad"
    by (rule owner_rounds_inverse[OF assms(4) _ o]) simp
  then have "owner_rounds True ?d keyLength [0..<20] oValue = Inr userPad"
    by (simp only: rounds_reversed)
  then show ?thesis
    using o lo assms by (auto simp: ComputeOwnerKey_def MD5_DIGEST_LENGTH_def Let_def)
qed

text \<open>
  Claim C2. For Revision 3 or 4 and every pair of passwords, the owner-key procedure in
  authenticate mode (keys digest XOR (19 - i)), run on the O value computed from these
  passwords, returns the 32 bytes of the padded user password. The key length is between
  1 and 16 bytes, as it is for every descriptor of this family.
\<close>

theorem owner_key_roundtrip:
  assumes "revision = 3 \<or> revision = 4" and "0 < keyLength" and "keyLength \<le> 16"
  shows "\<exists>oValue. ComputeOwnerKey ssl (PadPassword userPassword) (PadPassword ownerPassword)
                     keyLength revision False = Inr oValue
               \<and> ComputeOwnerKey ssl oValue (PadPassword ownerPassword) keyLength revision True
                     = Inr (PadPassword userPassword)"
  using ComputeOwnerKey_roundtrip[OF assms length_PadPassword] by blast

theorem owner_key_roundtrip_witness:
  "\<exists>oValue. ComputeOwnerKey test_backend (PadPassword [0x75, 0x73, 0x65, 0x72])
               (PadPassword [0x6F, 0x77, 0x6E, 0x65, 0x72]) 16 3 False = Inr oValue
           \<and> ComputeOwnerKey test_backend oValue (PadPassword [0x6F, 0x77, 0x6E, 0x65, 0x72]) 16 3 True
               = Inr (PadPassword [0x75, 0x73, 0x65, 0x72])"
  using owner_key_roundtrip[of 3 16 test_backend "[0x75, 0x73, 0x65, 0x72]"
      "[0x6F, 0x77, 0x6E, 0x65, 0x72]"]
  by simp

section \<open>Stream length accounting\<close>

text \<open>
  Claim C7. For every plaintext length \<open>n\<close> (a \<^verbatim>\<open>size_t\<close>), the encrypted length in block
  mode, for AES-128 and for AES-256, is ((n + 15) AND NOT 15) + 16, plus 16 more when
  \<open>n\<close> is a multiple of 16; for RC4 it is \<open>n\<close>.
\<close>

theorem CalculateStreamLength_formula:
  "CalculateStreamLength_AESV2 n = ((n + 15) AND NOT 15) + 16 + (if n mod 16 = 0 then 16 else 0)
   \<and> CalculateStreamLength_AESV3 n = ((n + 15) AND NOT 15) + 16 + (if n mod 16 = 0 then 16 else 0)
   \<and> CalculateStreamLength_RC4 n = n"
  by (simp add: CalculateStreamLength_AESV2_def CalculateStreamLength_AESV3_def
      CalculateStreamLength_RC4_def AES_IV_LENGTH_def Let_def)

section \<open>Permissions of a descriptor created from passwords\<close>

text \<open>
  Claim C10. Every descriptor that \<open>Create\<close> returns, in every algorithm family, stores
  the requested protection flags \<open>p\<close> together with the default bits: its P value is
  \<open>p OR 0xFFFFF0C0\<close>.
\<close>

theorem Create_permissions:
  assumes "Create hasRc4 userPassword ownerPassword protection algorithm keyLength = Inr e"
  shows "m_pValue e = protection OR 0xFFFFF0C0"
  using assms
  by (auto simp: Create_def PdfEncryptRC4_scratch_def PdfEncryptAESV2_scratch_def
      PdfEncryptAESV3_scratch_def InitFromScratch_def PERMS_DEFAULT_def or.commute
      split: if_splits PdfEncryptionAlgorithm.splits)

theorem Create_permissions_witness:
  "\<exists>e. Create True [0x75] [0x6F] 4 RC4V2 128 = Inr e \<and> m_pValue e = 4 OR 0xFFFFF0C0"
proof -
  obtain e where e: "Create True [0x75] [0x6F] 4 RC4V2 128 = Inr e"
    by (simp add: Create_def IsEncryptionEnabled_def PdfEncryptRC4_scratch_def
        KeyLength_Unknown_def InitFromScratch_def)
  show ?thesis
    using e Create_permissions[OF e] by blast
qed

section \<open>Encryption output streams of the AES variants\<close>

text \<open>
  Claim C3, as the code has it. The claim says that creating an encryption output stream
  is implemented for AES-128 and fails with NotImplemented for AES-256. In the code both
  variants refuse, with the same error: for every descriptor, output stream, context and
  object reference, \<open>CreateEncryptionOutputStream\<close> of PdfEncryptAESV2 and of
  PdfEncryptAESV3 fails with InternalLogic.
\<close>

theorem CreateEncryptionOutputStream_AES_unsupported:
  "CreateEncryptionOutputStream_AESV2 e outputStream context objref = Inl InternalLogic
   \<and> CreateEncryptionOutputStream_AESV3 e outputStream context objref = Inl InternalLogic"
  by (simp add: CreateEncryptionOutputStream_AESV2_def CreateEncryptionOutputStream_AESV3_def)

text \<open>
  The claim C3 as stated fails: for AES-128 no stream is returned, and the error of
  AES-256 is not NotImplemented.
\<close>

theorem CreateEncryptionOutputStream_counterexample:
  "(\<nexists>s. CreateEncryptionOutputStream_AESV2 PdfEncrypt_new [] PdfEncryptContext_new
            \<lparr> ObjectNumber = 1, GenerationNumber = 0 \<rparr> = Inr s)
   \<and> CreateEncryptionOutputStream_AESV3 PdfEncrypt_new [] PdfEncryptContext_new
            \<lparr> ObjectNumber = 1, GenerationNumber = 0 \<rparr> \<noteq> Inl NotImplemented"
  by (simp add: CreateEncryptionOutputStream_AESV2_def CreateEncryptionOutputStream_AESV3_def)

section \<open>Copying an AES-256 descriptor\<close>

lemma PdfEncryptAESV3_copy_buffers:
  "m_ueValue (PdfEncryptAESV3_copy rhs ue0 oe0) = take 16 (m_ueValue rhs) @ drop 16 ue0
   \<and> m_oeValue (PdfEncryptAESV3_copy rhs ue0 oe0) = take 16 (m_oeValue rhs) @ drop 16 oe0
   \<and> m_permsValue (PdfEncryptAESV3_copy rhs ue0 oe0) = take 16 (m_permsValue rhs)"
  by (simp add: PdfEncryptAESV3_copy_def memcpy_def)

text \<open>
  Claim C9 says that the copy of an AES-256 descriptor has the UE, OE and Perms values of
  the original, byte for byte. The copy constructor copies 16 bytes of each: Perms is
  copied in full, of UE and OE only the first half. For the descriptor parsed from
  O = 48 bytes 1, OE = 32 bytes 2, U = 48 bytes 3, UE = 32 bytes 4, Perms = 16 bytes 5,
  Revision 6, copied into an object whose arrays hold zeros, bytes 16 to 31 of UE and of
  OE are 0 in the copy.
\<close>

theorem CreateFromEncrypt_AESV3_truncates:
  "\<exists>rhs c. PdfEncryptAESV3_parsed (replicate 48 1) (replicate 32 2) (replicate 48 3)
              (replicate 32 4) 0xFFFFF0C0 (replicate 16 5) 6 = Inr rhs
         \<and> CreateFromEncrypt rhs (replicate 32 0) (replicate 32 0) = Inr c
         \<and> m_ueValue rhs = replicate 32 4
         \<and> m_ueValue c = replicate 16 4 @ replicate 16 0
         \<and> m_oeValue rhs = replicate 32 2
         \<and> m_oeValue c = replicate 16 2 @ replicate 16 0
         \<and> m_permsValue c = m_permsValue rhs"
  by (simp add: PdfEncryptAESV3_parsed_def InitFromValues_def CreateFromEncrypt_def
      PdfEncryptAESV3_copy_def memcpy_def PdfEncrypt_new_def)


section \<open>The object key\<close>

lemma of_nat_mod_256: "(of_nat (x mod 256) :: 8 word) = of_nat x"
  by (simp add: word_of_nat_eq_iff take_bit_eq_mod)

lemma low_byte: "(ucast (0xFF AND (w :: 32 word)) :: 8 word) = of_nat (unat w)"
proof -
  have m: "(0xFF :: 32 word) = mask 8"
    by (simp add: mask_eq_exp_minus_1)
  have "(ucast (mask 8 AND w) :: 8 word) = ucast w"
    by (rule bit_word_eqI) (auto simp add: bit_simps)
  then show ?thesis
    by (simp only: m) simp
qed

lemma unat_drop_bit8: "unat (drop_bit 8 (w :: 32 word)) = unat w div 256"
  by (simp add: drop_bit_eq_div unat_div)

lemma unat_drop_bit16: "unat (drop_bit 16 (w :: 32 word)) = unat w div 65536"
  by (simp add: drop_bit_eq_div unat_div)

lemma unat_ucast_16_32: "unat (ucast (g :: 16 word) :: 32 word) = unat g"
  by (simp add: unsigned_ucast_eq take_bit_nat_eq_self
      less_trans[OF unsigned_less[where ?'a = nat, of g, simplified]])

lemma object_bytes:
  "[ucast (0xFF AND n), ucast (0xFF AND drop_bit 8 n), ucast (0xFF AND drop_bit 16 n)]
     = le_bytes 3 (unat (n :: 32 word))"
  by (simp add: le_bytes_def low_byte unat_drop_bit8 unat_drop_bit16 of_nat_mod_256 upt_rec)

lemma generation_bytes:
  "[ucast (0xFF AND (ucast g :: 32 word)), ucast (0xFF AND drop_bit 8 (ucast g :: 32 word))]
     = le_bytes 2 (unat (g :: 16 word))"
  by (simp add: le_bytes_def low_byte unat_drop_bit8 unat_ucast_16_32 of_nat_mod_256 upt_rec)

lemma map_nth_take: "n \<le> length xs \<Longrightarrow> map (\<lambda>j. xs ! j) [0..<n] = take n xs"
  by (simp add: list_eq_iff_nth_eq)

text \<open>
  Claim C4. With a key length of at most 16 bytes (RC4 and AES-128), the object key is
  the MD5 digest of the first \<open>keyLength\<close> key bytes, the low 3 bytes of the object
  number and the low 2 bytes of the generation number, both little-endian, and for
  AES-128 only the salt 0x73 0x41 0x6C 0x54; min(keyLength + 5, 16) bytes of it are used.
  AES-256 derives no object key: the input stream gets the 32-byte document key as it is,
  and the result of \<open>Encrypt\<close> is the same for every object reference.
\<close>

theorem CreateObjKey_spec:
  assumes "GetKeyLengthBytes e \<le> 16" and "GetKeyLengthBytes e \<le> length encryptionKey"
    and "length (m_encryptionKey context) = 32"
  shows "CreateObjKey ssl e encryptionKey objref =
           Inr (ComputeMD5 ssl (take (GetKeyLengthBytes e) encryptionKey
                                @ le_bytes 3 (unat (ObjectNumber objref))
                                @ le_bytes 2 (unat (GenerationNumber objref))
                                @ (if m_Algorithm e = AESV2 then [0x73, 0x41, 0x6C, 0x54] else [])),
                min (GetKeyLengthBytes e + 5) 16)
       \<and> s_key (CreateEncryptionInputStream_AESV3 e' inputStream inputLen context objref)
           = m_encryptionKey context
       \<and> s_keyLen (CreateEncryptionInputStream_AESV3 e' inputStream inputLen context objref) = 32
       \<and> Encrypt_AESV3 ssl r e' inStr context objref = Encrypt_AESV3 ssl r e' inStr context objref'"
proof -
  have "CreateObjKey ssl e encryptionKey objref =
           Inr (ComputeMD5 ssl (take (GetKeyLengthBytes e) encryptionKey
                                @ le_bytes 3 (unat (ObjectNumber objref))
                                @ le_bytes 2 (unat (GenerationNumber objref))
                                @ (if m_Algorithm e = AESV2 then [0x73, 0x41, 0x6C, 0x54] else [])),
                min (GetKeyLengthBytes e + 5) 16)"
    using assms(1,2)
    by (simp add: CreateObjKey_def Let_def MD5_DIGEST_LENGTH_def map_nth_take
        object_bytes[symmetric] generation_bytes[symmetric] min_def)
  then show ?thesis
    using assms(3)
    by (simp add: CreateEncryptionInputStream_AESV3_def PdfAESInputStream_new_def Encrypt_AESV3_def)
qed

theorem CreateObjKey_spec_witness:
  "CreateObjKey test_backend (PdfEncrypt_new\<lparr> m_Algorithm := AESV2, m_KeyLength := 128 \<rparr>)
     (replicate 32 7) \<lparr> ObjectNumber = 12, GenerationNumber = 1 \<rparr>
   = Inr (ComputeMD5 test_backend
            (replicate 16 7 @ [12, 0, 0] @ [1, 0] @ [0x73, 0x41, 0x6C, 0x54]), 16)
   \<and> s_key (CreateEncryptionInputStream_AESV3 PdfEncrypt_new [] 0 PdfEncryptContext_new
              \<lparr> ObjectNumber = 12, GenerationNumber = 1 \<rparr>) = replicate 32 0"
  using CreateObjKey_spec[of "PdfEncrypt_new\<lparr> m_Algorithm := AESV2, m_KeyLength := 128 \<rparr>"
      "replicate 32 7" PdfEncryptContext_new test_backend
      "\<lparr> ObjectNumber = 12, GenerationNumber = 1 \<rparr>" PdfEncrypt_new "[]" 0]
  by (simp add: GetKeyLengthBytes_def PdfEncrypt_new_def PdfEncryptContext_new_def le_bytes_def
      upt_rec)

section \<open>Termination of the Revision 6 hash\<close>

lemma length_concat_replicate: "length (concat (replicate n xs)) = n * length xs"
  by (induction n) simp_all

lemma hardening_loop_bounds:
  "(\<forall>key iv d. length (AesCbc ssl key iv d) = length d) \<Longrightarrow> 32 \<le> length block \<Longrightarrow>
   \<exists>n b. hardening_loop ssl pswd uValue i data blockLen block = Inr (n, b)
        \<and> i \<le> n \<and> 64 \<le> n \<and> n \<le> max i 287 \<and> 32 \<le> length b"
proof (induction ssl pswd uValue i data blockLen block rule: hardening_loop.induct)
  case (1 ssl pswd uValue i data blockLen block)
  let ?cond = "if i < 64 then True else i < 32 + unat (last data)"
  show ?case
  proof (cases ?cond)
    case False
    then have "hardening_loop ssl pswd uValue i data blockLen block = Inr (i, block)"
      by (subst hardening_loop.simps) simp
    moreover have "64 \<le> i"
      using False by (auto split: if_splits)
    ultimately show ?thesis
      using "1.prems"(2) by simp
  next
    case True
    let ?data0 = "pswd @ take blockLen block @ (case uValue of None \<Rightarrow> [] | Some u \<Rightarrow> take 48 u)"
    let ?data2 = "AesCbc ssl (take 16 block) (take 16 (drop 16 block)) (concat (replicate 64 ?data0))"
    let ?sum = "sum_list (map unat (take 16 ?data2))"
    let ?blockLen = "32 + (?sum mod 3) * 16"
    let ?block = "(if ?blockLen = 32 then digest_bytes 32 (SHA256 ssl ?data2)
                   else if ?blockLen = 48 then digest_bytes 48 (SHA384 ssl ?data2)
                   else digest_bytes 64 (SHA512 ssl ?data2))"
    have len: "length ?data2 = 64 * length ?data0"
      using "1.prems"(1) by (simp add: length_concat_replicate)
    have step: "hardening_loop ssl pswd uValue i data blockLen block
                = hardening_loop ssl pswd uValue (i + 1) ?data2 ?blockLen ?block"
      using True len by (subst hardening_loop.simps) (simp add: Let_def)
    have lb: "32 \<le> length ?block"
      by (simp add: digest_bytes_def)
    have "unat (last data) < 256"
      using unsigned_less[of "last data", where ?'a = nat] by simp
    with True have i: "i < 287"
      by (auto split: if_splits)
    obtain n b where r: "hardening_loop ssl pswd uValue (i + 1) ?data2 ?blockLen ?block = Inr (n, b)"
      and b: "i + 1 \<le> n" "64 \<le> n" "n \<le> max (i + 1) 287" "32 \<le> length b"
      using "1.IH"[OF True refl refl refl refl _ refl refl refl "1.prems"(1) lb] len
      by auto
    show ?thesis
      using step r b i by auto
  qed
qed

text \<open>
  Claim C6. For a revision above 5, every password of at most 127 bytes (the length
  \<open>preprocessPassword\<close> truncates to), every salt and every optional U value,
  \<open>computeHash\<close> returns: the hardening loop stops after at least 64 and at most 287
  rounds, and the result has 32 bytes. The AES primitive is taken to return as many bytes
  as it is given, which is what the assertion in the loop checks.
\<close>

theorem computeHash_terminates:
  assumes "\<forall>key iv d. length (AesCbc ssl key iv d) = length d" and "length pswd \<le> 127"
    and "5 < revision"
  shows "\<exists>rounds h. computeHash_rounds ssl pswd revision salt uValue = Inr (rounds, h)
           \<and> computeHash ssl pswd revision salt uValue = Inr h
           \<and> 64 \<le> rounds \<and> rounds \<le> 287 \<and> length h = 32"
proof -
  let ?h = "digest_bytes 32 (SHA256 ssl (pswd @ take 8 salt @
              (case uValue of None \<Rightarrow> [] | Some u \<Rightarrow> take 48 u)))"
  have "32 \<le> length ?h"
    by (simp add: digest_bytes_def)
  from hardening_loop_bounds[OF assms(1) this, of pswd uValue 0 "[]" 32]
  obtain n b where "hardening_loop ssl pswd uValue 0 [] 32 ?h = Inr (n, b)"
    and "64 \<le> n" "n \<le> 287" "32 \<le> length b"
    by auto
  then show ?thesis
    using assms(2,3) by (simp add: computeHash_def computeHash_rounds_def Let_def)
qed

theorem computeHash_terminates_witness:
  "\<exists>rounds h. computeHash_rounds test_backend [0x53, 0x65, 0x63, 0x72, 0x65, 0x74, 0x31] 6
       (replicate 8 0) None = Inr (rounds, h)
     \<and> 64 \<le> rounds \<and> rounds \<le> 287 \<and> length h = 32"
proof -
  have aes: "\<forall>key iv d. length (AesCbc test_backend key iv d) = length d"
    by (simp add: test_backend_def)
  have len: "length [0x53, 0x65, 0x63, 0x72, 0x65, 0x74, 0x31 :: byte] \<le> 127"
    by simp
  have rev: "(5 :: nat) < 6"
    by simp
  show ?thesis
    using computeHash_terminates[OF aes len rev, of "replicate 8 0" None] by blast
qed


section \<open>Initialisation vectors\<close>

lemma random_bytes_spec:
  "random_bytes ssl n r =
     (map (\<lambda>i. of_nat (Rand ssl (seed r) (draws r + i) mod 255)) [0..<n], r\<lparr> draws := draws r + n \<rparr>)"
proof (induction n arbitrary: r)
  case 0
  show ?case by simp
next
  case (Suc n)
  have "map (\<lambda>i. (of_nat (Rand ssl (seed r) (draws r + i) mod 255) :: byte)) [0..<Suc n]
        = of_nat (Rand ssl (seed r) (draws r) mod 255)
          # map (\<lambda>i. of_nat (Rand ssl (seed r) (Suc (draws r + i)) mod 255)) [0..<n]"
    by (simp add: upt_conv_Cons map_Suc_upt[symmetric] del: upt_Suc)
  then show ?case
    by (simp add: Suc random_byte_def rand_def del: upt_Suc)
qed

lemma EncryptTo_AESV2_iv:
  assumes "m_Algorithm e = AESV2" and "EncryptTo ssl r e view context objref = Inr (out, r')"
  shows "take 16 out = ComputeMD5 ssl (m_documentId context) \<and> r' = r"
  using assms
  by (auto simp: EncryptTo_def Encrypt_AESV2_def generateInitialVector_AESV2_def Let_def
      length_ComputeMD5 split: if_splits sum.splits prod.splits)

lemma EncryptTo_AESV3_iv:
  assumes "m_Algorithm e = AESV3R5 \<or> m_Algorithm e = AESV3R6"
    and "EncryptTo ssl r e view context objref = Inr (out, r')"
  shows "take 16 out = map (\<lambda>i. of_nat (Rand ssl (seed r) (draws r + i) mod 255)) [0..<16]
         \<and> r' = r\<lparr> draws := draws r + 16 \<rparr>"
  using assms
  by (auto simp: EncryptTo_def Encrypt_AESV3_def generateInitialVector_AESV3_def Let_def
      random_bytes_spec AES_IV_LENGTH_def split: if_splits sum.splits prod.splits)

text \<open>
  Where the 16 bytes before the ciphertext come from. For AES-256 they are the next 16
  draws of \<^verbatim>\<open>rand()\<close>, each reduced modulo 255, and the generator advances by 16
  draws. For AES-128 they are the MD5 digest of the document identifier, whatever the
  key, the plaintext, the object reference and the state of the generator, which is
  left as it was.
\<close>

lemma EncryptTo_initial_vector:
  "(m_Algorithm e = AESV2 \<longrightarrow> EncryptTo ssl r e view context objref = Inr (out, r') \<longrightarrow>
      take 16 out = ComputeMD5 ssl (m_documentId context) \<and> r' = r)
   \<and> (m_Algorithm e = AESV3R5 \<or> m_Algorithm e = AESV3R6 \<longrightarrow>
      EncryptTo ssl r e view context objref = Inr (out, r') \<longrightarrow>
      take 16 out = map (\<lambda>i. of_nat (Rand ssl (seed r) (draws r + i) mod 255)) [0..<16]
      \<and> r' = r\<lparr> draws := draws r + 16 \<rparr>)"
  using EncryptTo_AESV2_iv EncryptTo_AESV3_iv by blast

lemma EncryptTo_AESV2_example:
  "\<exists>out. EncryptTo test_backend r
       (PdfEncrypt_new\<lparr> m_Algorithm := AESV2, m_KeyLength := 128, m_initialized := True \<rparr>)
       [0x41] (PdfEncryptContext_new\<lparr> m_documentId := [1, 2, 3] \<rparr>)
       \<lparr> ObjectNumber = 12, GenerationNumber = 0 \<rparr> = Inr (out, r)"
  by (simp add: EncryptTo_def Encrypt_AESV2_def CreateObjKey_def AESEncrypt_def
      GetKeyLengthBytes_def MD5_DIGEST_LENGTH_def PdfEncrypt_new_def Let_def)

lemma EncryptTo_AESV3_example:
  "\<exists>out r'. EncryptTo test_backend \<lparr> seed = 7, draws = 0 \<rparr>
       (PdfEncrypt_new\<lparr> m_Algorithm := AESV3R6, m_KeyLength := 256, m_initialized := True \<rparr>)
       [0x41] (PdfEncryptContext_new\<lparr> m_documentId := [1, 2, 3] \<rparr>)
       \<lparr> ObjectNumber = 12, GenerationNumber = 0 \<rparr> = Inr (out, r')"
  by (simp add: EncryptTo_def Encrypt_AESV3_def AESEncrypt_def generateInitialVector_AESV3_def
      GetKeyLengthBytes_def PdfEncrypt_new_def Let_def case_prod_beta)

lemma EncryptTo_initial_vector_example:
  "(\<exists>out. EncryptTo test_backend \<lparr> seed = 7, draws = 0 \<rparr>
       (PdfEncrypt_new\<lparr> m_Algorithm := AESV2, m_KeyLength := 128, m_initialized := True \<rparr>)
       [0x41] (PdfEncryptContext_new\<lparr> m_documentId := [1, 2, 3] \<rparr>)
       \<lparr> ObjectNumber = 12, GenerationNumber = 0 \<rparr> = Inr (out, \<lparr> seed = 7, draws = 0 \<rparr>)
     \<and> take 16 out = ComputeMD5 test_backend [1, 2, 3])
   \<and> (\<exists>out. EncryptTo test_backend \<lparr> seed = 7, draws = 0 \<rparr>
       (PdfEncrypt_new\<lparr> m_Algorithm := AESV3R6, m_KeyLength := 256, m_initialized := True \<rparr>)
       [0x41] (PdfEncryptContext_new\<lparr> m_documentId := [1, 2, 3] \<rparr>)
       \<lparr> ObjectNumber = 12, GenerationNumber = 0 \<rparr> = Inr (out, \<lparr> seed = 7, draws = 16 \<rparr>)
     \<and> take 16 out = map of_nat [7 ..< 23])"
proof -
  let ?r = "\<lparr> seed = 7, draws = 0 \<rparr>"
  let ?c = "PdfEncryptContext_new\<lparr> m_documentId := [1, 2, 3] \<rparr>"
  let ?o = "\<lparr> ObjectNumber = 12, GenerationNumber = 0 \<rparr>"
  let ?e2 = "PdfEncrypt_new\<lparr> m_Algorithm := AESV2, m_KeyLength := 128, m_initialized := True \<rparr>"
  let ?e3 = "PdfEncrypt_new\<lparr> m_Algorithm := AESV3R6, m_KeyLength := 256, m_initialized := True \<rparr>"
  obtain out2 where o2: "EncryptTo test_backend ?r ?e2 [0x41] ?c ?o = Inr (out2, ?r)"
    using EncryptTo_AESV2_example[of ?r] by blast
  obtain out3 r3 where o3: "EncryptTo test_backend ?r ?e3 [0x41] ?c ?o = Inr (out3, r3)"
    using EncryptTo_AESV3_example by blast
  have a2: "m_Algorithm ?e2 = AESV2" by simp
  have a3: "m_Algorithm ?e3 = AESV3R5 \<or> m_Algorithm ?e3 = AESV3R6" by simp
  have "take 16 out2 = ComputeMD5 test_backend (m_documentId ?c)"
    using EncryptTo_initial_vector[of ?e2 test_backend ?r "[0x41]" ?c ?o out2 ?r] o2 a2 by blast
  moreover have "take 16 out3 = map (\<lambda>i. of_nat (Rand test_backend (seed ?r) (draws ?r + i) mod 255)) [0..<16]
       \<and> r3 = ?r\<lparr> draws := draws ?r + 16 \<rparr>"
    using EncryptTo_initial_vector[of ?e3 test_backend ?r "[0x41]" ?c ?o out3 r3] o3 a3 by blast
  moreover have "map (\<lambda>i. (of_nat (Rand test_backend (seed ?r) (draws ?r + i) mod 255) :: byte)) [0..<16]
       = map of_nat [7 ..< 23]"
    by (simp add: test_backend_def upt_rec)
  ultimately show ?thesis
    using o2 o3 by auto
qed

text \<open>
  Claim C8 says that every AES encryption writes a freshly generated random
  initialisation vector before the ciphertext, so that two encryptions with identical
  inputs differ in these 16 bytes. PdfEncryptAESV3 draws them from the generator;
  PdfEncryptAESV2 does not: two encryptions in a row, with the same AES-128 descriptor,
  key, plaintext, document identifier and object reference, write the same 16 bytes
  before the ciphertext.
\<close>

theorem EncryptTo_AESV2_repeats_iv:
  "\<exists>out1 r1 out2 r2.
     EncryptTo test_backend \<lparr> seed = 7, draws = 0 \<rparr>
       (PdfEncrypt_new\<lparr> m_Algorithm := AESV2, m_KeyLength := 128, m_initialized := True \<rparr>)
       [0x41] (PdfEncryptContext_new\<lparr> m_documentId := [1, 2, 3] \<rparr>)
       \<lparr> ObjectNumber = 12, GenerationNumber = 0 \<rparr> = Inr (out1, r1)
   \<and> EncryptTo test_backend r1
       (PdfEncrypt_new\<lparr> m_Algorithm := AESV2, m_KeyLength := 128, m_initialized := True \<rparr>)
       [0x41] (PdfEncryptContext_new\<lparr> m_documentId := [1, 2, 3] \<rparr>)
       \<lparr> ObjectNumber = 12, GenerationNumber = 0 \<rparr> = Inr (out2, r2)
   \<and> take 16 out1 = take 16 out2"
proof -
  let ?r = "\<lparr> seed = 7, draws = 0 \<rparr>"
  let ?c = "PdfEncryptContext_new\<lparr> m_documentId := [1, 2, 3] \<rparr>"
  let ?o = "\<lparr> ObjectNumber = 12, GenerationNumber = 0 \<rparr>"
  let ?e2 = "PdfEncrypt_new\<lparr> m_Algorithm := AESV2, m_KeyLength := 128, m_initialized := True \<rparr>"
  obtain out1 where o1: "EncryptTo test_backend ?r ?e2 [0x41] ?c ?o = Inr (out1, ?r)"
    using EncryptTo_AESV2_example[of ?r] by blast
  have a2: "m_Algorithm ?e2 = AESV2" by simp
  have "take 16 out1 = ComputeMD5 test_backend (m_documentId ?c)"
    using EncryptTo_AESV2_iv[OF a2 o1] by simp
  then show ?thesis
    using o1 by blast
qed


section \<open>Authentication after creation\<close>

subsection \<open>Family A\<close>

lemma rc4_schedule_cong:
  assumes "0 < kl" and "take kl k1 = take kl k2"
  shows "rc4_schedule k1 kl = rc4_schedule k2 kl"
proof -
  have "k1 ! (i mod kl) = k2 ! (i mod kl)" for i
  proof -
    have "i mod kl < kl" using assms(1) by simp
    then show ?thesis
      using assms(2) by (metis nth_take)
  qed
  then have "rc4_schedule_step k1 kl = rc4_schedule_step k2 kl"
    by (simp add: rc4_schedule_step_def fun_eq_iff)
  then show ?thesis
    by (simp add: rc4_schedule_def)
qed

lemma RC4Encrypt_cong:
  "take kl k1 = take kl k2 \<Longrightarrow> RC4Encrypt k1 kl x n m = RC4Encrypt k2 kl x n m"
  using rc4_schedule_cong[of kl k1 k2] by (simp add: RC4Encrypt_def)

lemma RC4Encrypt_take: "RC4Encrypt key kl (x @ t) (length x) (length x) = RC4Encrypt key kl x (length x) (length x)"
  by (simp add: RC4Encrypt_def)

lemma user_rounds_cong:
  assumes "take kl ek1 = take kl ek2"
  shows "user_rounds ek1 kl L x = user_rounds ek2 kl L x"
proof -
  have "\<And>j. j < kl \<Longrightarrow> ek1 ! j = ek2 ! j"
    using assms by (metis nth_take)
  then have keq: "map (\<lambda>j. (ek1 ! j) XOR (of_nat k :: byte)) [0..<kl]
                  = map (\<lambda>j. (ek2 ! j) XOR of_nat k) [0..<kl]" for k
    by simp
  show ?thesis
  proof (induction L arbitrary: x)
    case Nil
    show ?case by simp
  next
    case (Cons k L)
    show ?case
      by (simp only: user_rounds.simps keq[of k] Cons.IH)
  qed
qed

lemma length_md5_rehash: "length (md5_rehash ssl kl d) = 16"
proof -
  have "(50 :: nat) = Suc 49" by simp
  then show ?thesis
    by (simp only: md5_rehash_def funpow.simps o_apply length_ComputeMD5)
qed

lemma user_rounds_prefix:
  "0 < kl \<Longrightarrow> length x = 16 \<Longrightarrow>
   \<exists>u. length u = 16 \<and> (\<forall>t. user_rounds ek kl L (x @ t) = Inr (u @ t))"
proof (induction L arbitrary: x)
  case Nil
  then show ?case by auto
next
  case (Cons k L)
  let ?key = "map (\<lambda>j. (ek ! j) XOR (of_nat k :: byte)) [0..<kl]"
  obtain out where out: "RC4Encrypt ?key kl x 16 16 = Inr out"
    using RC4Encrypt_ok[OF Cons.prems(1)] by blast
  have lo: "length out = 16"
    using RC4Encrypt_length[OF out] Cons.prems(2) by simp
  have step: "RC4Encrypt ?key kl (x @ t) 16 16 = Inr out" for t
    using out RC4Encrypt_take[of ?key kl x t] Cons.prems(2) by simp
  obtain u where u: "length u = 16" "\<forall>t. user_rounds ek kl L (out @ t) = Inr (u @ t)"
    using Cons.IH[OF Cons.prems(1) lo] by blast
  have "user_rounds ek kl (k # L) (x @ t) = Inr (u @ t)" for t
    using step[of t] u(2) lo Cons.prems(2) by (simp add: memcpy_def)
  then show ?case using u(1) by blast
qed

lemma ComputeEncryptionKey_form:
  assumes "0 < kl" and "kl \<le> 16"
  shows "\<exists>u k. length u = 32 \<and> length k = kl \<and>
          (\<forall>uk ek. ComputeEncryptionKey ssl d up ok p kl rv m uk ek = Inr (u @ drop 32 uk, k @ drop kl ek))"
proof -
  let ?ext = "permission_bytes p"
  let ?docId = "take (length d mod 2 ^ 32) d"
  let ?digest0 = "ComputeMD5 ssl (take 32 up @ take 32 ok @ ?ext @ ?docId @
                        (if \<not> m then [0xFF, 0xFF, 0xFF, 0xFF] else []))"
  let ?digest = "(if rv = 3 \<or> rv = 4 then md5_rehash ssl kl ?digest0 else ?digest0)"
  have ld: "length ?digest = 16"
    by (simp add: length_md5_rehash length_ComputeMD5)
  let ?k = "take kl ?digest"
  have lk: "length ?k = kl" using ld assms(2) by simp
  have ek: "memcpy ek ?digest kl = ?k @ drop kl ek" for ek
    by (simp add: memcpy_def)
  have tk: "take kl (?k @ drop kl ek) = take kl ?k" for ek
    using lk by simp
  show ?thesis
  proof (cases "rv = 3 \<or> rv = 4")
    case True
    let ?digest2 = "ComputeMD5 ssl (take 32 padding @ ?docId)"
    have l2: "length (take 16 ?digest2) = 16" by (simp add: length_ComputeMD5)
    obtain u16 where u16: "length u16 = 16"
      "\<forall>t. user_rounds ?k kl [0..<20] (take 16 ?digest2 @ t) = Inr (u16 @ t)"
      using user_rounds_prefix[OF assms(1) l2] by blast
    have "ComputeEncryptionKey ssl d up ok p kl rv m uk ek
          = Inr ((u16 @ replicate 16 0) @ drop 32 uk, ?k @ drop kl ek)" for uk ek
    proof -
      have "user_rounds (?k @ drop kl ek) kl [0..<20] (take 16 ?digest2 @ replicate 16 0 @ drop 32 uk)
            = Inr (u16 @ replicate 16 0 @ drop 32 uk)"
        using u16(2) user_rounds_cong[OF tk[of ek]] by simp
      then show ?thesis
        using True assms(2) ek[of ek]
        by (simp add: ComputeEncryptionKey_def MD5_DIGEST_LENGTH_def Let_def)
    qed
    then show ?thesis using u16(1) lk by (intro exI[of _ "u16 @ replicate 16 0"] exI[of _ ?k]) simp
  next
    case False
    obtain out where out: "RC4Encrypt ?k kl padding 32 32 = Inr out"
      using RC4Encrypt_ok[OF assms(1)] by blast
    have lo: "length out = 32"
      using RC4Encrypt_length[OF out] by (simp add: padding_def)
    have "ComputeEncryptionKey ssl d up ok p kl rv m uk ek
          = Inr (out @ drop 32 uk, ?k @ drop kl ek)" for uk ek
    proof -
      have "RC4Encrypt (?k @ drop kl ek) kl padding 32 32 = Inr out"
        using out RC4Encrypt_cong[OF tk[of ek]] by simp
      then show ?thesis
        using False assms(2) ek[of ek] lo
        by (simp add: ComputeEncryptionKey_def MD5_DIGEST_LENGTH_def Let_def memcpy_def)
    qed
    then show ?thesis using lo lk by (intro exI[of _ out] exI[of _ ?k]) simp
  qed
qed

lemma CheckKey_same_prefix:
  "GetKeyLengthBytes e \<le> 32 \<Longrightarrow> length u = 32 \<Longrightarrow> CheckKey e (u @ t1) (u @ t2) = Inr True"
  by (simp add: CheckKey_def Let_def list_all_iff nth_append)

lemma CheckKey_total:
  "GetKeyLengthBytes e \<le> 32 \<Longrightarrow> \<exists>b. CheckKey e a c = Inr b"
  by (simp add: CheckKey_def Let_def)


lemma ComputeOwnerKey_inverse:
  assumes "0 < kl" and "kl \<le> 16" and "length userPad = 32"
  shows "\<exists>oValue. ComputeOwnerKey ssl userPad ownerPad kl rv False = Inr oValue
               \<and> length oValue = 32
               \<and> (\<forall>t. ComputeOwnerKey ssl (oValue @ t) ownerPad kl rv True = Inr userPad)"
proof (cases "rv = 3 \<or> rv = 4")
  case True
  obtain oValue where o: "ComputeOwnerKey ssl userPad ownerPad kl rv False = Inr oValue"
    "length oValue = 32" "ComputeOwnerKey ssl oValue ownerPad kl rv True = Inr userPad"
    using ComputeOwnerKey_roundtrip[OF True assms] by blast
  have "ComputeOwnerKey ssl (oValue @ t) ownerPad kl rv True
        = ComputeOwnerKey ssl oValue ownerPad kl rv True" for t
    using True o(2) by (simp add: ComputeOwnerKey_def Let_def)
  then show ?thesis using o by auto
next
  case False
  let ?digest = "ComputeMD5 ssl (take 32 ownerPad)"
  obtain oValue where out: "RC4Encrypt ?digest 5 userPad 32 32 = Inr oValue"
    by (simp add: RC4Encrypt_def)
  have lo: "length oValue = 32"
    using RC4Encrypt_length[OF out] assms(3) by simp
  have inv: "RC4Encrypt ?digest 5 oValue 32 32 = Inr userPad"
    using RC4Encrypt_twice[OF out assms(3)] .
  have "RC4Encrypt ?digest 5 (oValue @ t) 32 32 = Inr userPad" for t
    using inv RC4Encrypt_take[of ?digest 5 oValue t] lo by simp
  then show ?thesis
    using out lo False assms(2)
    by (simp add: ComputeOwnerKey_def Let_def MD5_DIGEST_LENGTH_def)
qed

text \<open>What key generation leaves in a descriptor of Family A, and what the two
  authentication paths then compute.\<close>

lemma GenerateEncryptionKey_RC4_form:
  assumes "0 < GetKeyLengthBytes e" and "GetKeyLengthBytes e \<le> 16"
  shows "\<exists>oValue u k.
           length oValue = 32 \<and> length u = 32 \<and> length k = GetKeyLengthBytes e
         \<and> GenerateEncryptionKey_RC4 ssl e documentId key0
             = Inr (e\<lparr> m_oValue := oValue @ drop 32 (m_oValue e),
                       m_uValue := u @ drop 32 (m_uValue e) \<rparr>,
                    k @ drop (GetKeyLengthBytes e) key0)
         \<and> (\<forall>t. ComputeOwnerKey ssl (oValue @ t) (PadPassword (m_ownerPass e))
                   (GetKeyLengthBytes e) (m_rValue e) True = Inr (PadPassword (m_userPass e)))
         \<and> (\<forall>uk ek. ComputeEncryptionKey ssl documentId (PadPassword (m_userPass e))
                       (oValue @ drop 32 (m_oValue e)) (m_pValue e) (GetKeyLengthBytes e)
                       (m_rValue e) (m_EncryptMetadata e) uk ek
                     = Inr (u @ drop 32 uk, k @ drop (GetKeyLengthBytes e) ek))"
proof -
  let ?kl = "GetKeyLengthBytes e"
  obtain oValue where o: "ComputeOwnerKey ssl (PadPassword (m_userPass e)) (PadPassword (m_ownerPass e))
                            ?kl (m_rValue e) False = Inr oValue"
    "length oValue = 32"
    "\<forall>t. ComputeOwnerKey ssl (oValue @ t) (PadPassword (m_ownerPass e)) ?kl (m_rValue e) True
         = Inr (PadPassword (m_userPass e))"
    using ComputeOwnerKey_inverse[OF assms length_PadPassword] by blast
  obtain u k where uk: "length u = 32" "length k = ?kl"
    "\<forall>uk ek. ComputeEncryptionKey ssl documentId (PadPassword (m_userPass e))
                       (oValue @ drop 32 (m_oValue e)) (m_pValue e) ?kl
                       (m_rValue e) (m_EncryptMetadata e) uk ek
                     = Inr (u @ drop 32 uk, k @ drop ?kl ek)"
    using ComputeEncryptionKey_form[OF assms] by blast
  have "GenerateEncryptionKey_RC4 ssl e documentId key0
             = Inr (e\<lparr> m_oValue := oValue @ drop 32 (m_oValue e),
                       m_uValue := u @ drop 32 (m_uValue e) \<rparr>,
                    k @ drop ?kl key0)"
    using o(1,2) uk(3) by (simp add: GenerateEncryptionKey_RC4_def Let_def memcpy_def)
  then show ?thesis
    using o(2,3) uk by blast
qed

lemma Authenticate_RC4_results:
  assumes alg: "m_Algorithm e \<noteq> AESV3R5" "m_Algorithm e \<noteq> AESV3R6"
    and kl: "0 < GetKeyLengthBytes e" "GetKeyLengthBytes e \<le> 16"
    and o: "m_oValue e = oValue @ to" "length oValue = 32"
    and u: "m_uValue e = u @ tu" "length u = 32"
    and own: "\<forall>t. ComputeOwnerKey ssl (oValue @ t) (PadPassword ownerPassword)
                   (GetKeyLengthBytes e) (m_rValue e) True = Inr (PadPassword userPassword)"
    and cek: "\<forall>uk ek. ComputeEncryptionKey ssl documentId (PadPassword userPassword)
                       (m_oValue e) (m_pValue e) (GetKeyLengthBytes e)
                       (m_rValue e) (m_EncryptMetadata e) uk ek
                     = Inr (u @ drop 32 uk, k @ drop (GetKeyLengthBytes e) ek)"
  shows "(\<exists>key. Authenticate_RC4 ssl e userPassword documentId key0 = Inr (User, key))
       \<and> (\<exists>key. Authenticate_RC4 ssl e ownerPassword documentId key0
               = Inr (if PassesUserCheck ssl e ownerPassword documentId then User else Owner, key))"
proof -
  let ?kl = "GetKeyLengthBytes e"
  have kl32: "?kl \<le> 32" using kl(2) by simp
  have chk: "CheckKey e (u @ t) (m_uValue e) = Inr True" for t
    using CheckKey_same_prefix[OF kl32 u(2)] u(1) by simp
  have chk0: "CheckKey e u (m_uValue e) = Inr True"
    using chk[of "[]"] by simp
  have user: "\<exists>key. Authenticate_RC4 ssl e userPassword documentId key0 = Inr (User, key)"
    using cek chk0 by (simp add: Authenticate_RC4_def Let_def)
  obtain u' k' where f: "length u' = 32" "length k' = ?kl"
    "\<forall>uk ek. ComputeEncryptionKey ssl documentId (PadPassword ownerPassword)
                       (m_oValue e) (m_pValue e) ?kl
                       (m_rValue e) (m_EncryptMetadata e) uk ek
                     = Inr (u' @ drop 32 uk, k' @ drop ?kl ek)"
    using ComputeEncryptionKey_form[OF kl] by blast
  obtain b where b: "CheckKey e u' (m_uValue e) = Inr b"
    using CheckKey_total[OF kl32] by blast
  have p: "PassesUserCheck ssl e ownerPassword documentId = b"
    using alg f(3) b by (simp add: PassesUserCheck_def)
  have own': "ComputeOwnerKey ssl (m_oValue e) (PadPassword ownerPassword) ?kl (m_rValue e) True
              = Inr (PadPassword userPassword)"
    using own o(1) by simp
  have "\<exists>key. Authenticate_RC4 ssl e ownerPassword documentId key0
               = Inr (if b then User else Owner, key)"
    using f(3) b own' cek chk chk0 by (simp add: Authenticate_RC4_def Let_def)
  then show ?thesis
    using user p by simp
qed

lemma Authenticate_AESV2_eq:
  "Authenticate_AESV2 ssl e password documentId key0 = Authenticate_RC4 ssl e password documentId key0"
  by (simp add: Authenticate_AESV2_def Authenticate_RC4_def)

lemma GenerateEncryptionKey_AESV2_eq:
  "GenerateEncryptionKey_AESV2 ssl e documentId key0 = GenerateEncryptionKey_RC4 ssl e documentId key0"
  by (simp add: GenerateEncryptionKey_AESV2_def GenerateEncryptionKey_RC4_def)

lemma Create_MD5_fields:
  assumes "Create hasRc4 userPassword ownerPassword protection algorithm keyLength = Inr e"
    and "algorithm \<noteq> AESV3R5" and "algorithm \<noteq> AESV3R6"
  shows "m_Algorithm e = algorithm \<and> m_userPass e = userPassword \<and> m_ownerPass e = ownerPassword
       \<and> \<not> m_initialized e \<and> 0 < GetKeyLengthBytes e \<and> GetKeyLengthBytes e \<le> 16"
  using assms
  by (auto simp: Create_def PdfEncryptRC4_scratch_def PdfEncryptAESV2_scratch_def
      InitFromScratch_def PdfEncrypt_new_def GetKeyLengthBytes_def KeyLength_Unknown_def
      split: if_splits PdfEncryptionAlgorithm.splits)

text \<open>Family A: key generation succeeds, and then the two passwords authenticate.\<close>

lemma Authenticate_created_MD5:
  assumes c: "Create hasRc4 userPassword ownerPassword protection algorithm keyLength = Inr e"
    and alg: "algorithm \<noteq> AESV3R5" "algorithm \<noteq> AESV3R6"
  shows "\<exists>e' context' r'.
           EnsureEncryptionInitialized ssl now r e documentId context = Inr (e', context', r')
         \<and> (\<exists>c. Authenticate ssl e' userPassword documentId c0 = Inr c \<and> m_AuthResult c = User)
         \<and> (\<exists>c. Authenticate ssl e' ownerPassword documentId c0 = Inr c
               \<and> m_AuthResult c = (if PassesUserCheck ssl e' ownerPassword documentId
                                    then User else Owner))"
proof -
  note f = Create_MD5_fields[OF c alg]
  let ?kl = "GetKeyLengthBytes e"
  from f have kl: "0 < ?kl" "?kl \<le> 16"
    by simp_all
  from GenerateEncryptionKey_RC4_form[OF kl, of ssl documentId "m_encryptionKey context"]
  obtain oValue u k where g:
    "length oValue = 32" "length u = 32"
    "GenerateEncryptionKey_RC4 ssl e documentId (m_encryptionKey context)
             = Inr (e\<lparr> m_oValue := oValue @ drop 32 (m_oValue e),
                       m_uValue := u @ drop 32 (m_uValue e) \<rparr>,
                    k @ drop ?kl (m_encryptionKey context))"
    "\<forall>t. ComputeOwnerKey ssl (oValue @ t) (PadPassword (m_ownerPass e))
                   ?kl (m_rValue e) True = Inr (PadPassword (m_userPass e))"
    "\<forall>uk ek. ComputeEncryptionKey ssl documentId (PadPassword (m_userPass e))
                       (oValue @ drop 32 (m_oValue e)) (m_pValue e) ?kl
                       (m_rValue e) (m_EncryptMetadata e) uk ek
                     = Inr (u @ drop 32 uk, k @ drop ?kl ek)"
    by blast
  let ?e1 = "e\<lparr> m_oValue := oValue @ drop 32 (m_oValue e), m_uValue := u @ drop 32 (m_uValue e) \<rparr>"
  let ?e' = "(clearSensitiveInfo ?e1)\<lparr> m_initialized := True \<rparr>"
  let ?ctx = "context\<lparr> m_encryptionKey := k @ drop ?kl (m_encryptionKey context),
                        m_documentId := documentId, m_AuthResult := Owner \<rparr>"
  have gen: "GenerateEncryptionKey ssl now r e documentId (m_encryptionKey context)
             = Inr (?e1, k @ drop ?kl (m_encryptionKey context), r)"
    using f alg g(3)
    by (cases algorithm) (simp_all add: GenerateEncryptionKey_def GenerateEncryptionKey_AESV2_eq)
  have ens: "EnsureEncryptionInitialized ssl now r e documentId context = Inr (?e', ?ctx, r)"
    using f gen by (simp add: EnsureEncryptionInitialized_def)
  have flds: "m_Algorithm ?e' = algorithm" "GetKeyLengthBytes ?e' = ?kl"
    "m_oValue ?e' = oValue @ drop 32 (m_oValue e)" "m_uValue ?e' = u @ drop 32 (m_uValue e)"
    "m_rValue ?e' = m_rValue e" "m_pValue ?e' = m_pValue e"
    "m_EncryptMetadata ?e' = m_EncryptMetadata e"
    using f by (simp_all add: clearSensitiveInfo_def GetKeyLengthBytes_def)
  have res: "(\<exists>key. Authenticate_RC4 ssl ?e' userPassword documentId (m_encryptionKey c0) = Inr (User, key))
       \<and> (\<exists>key. Authenticate_RC4 ssl ?e' ownerPassword documentId (m_encryptionKey c0)
               = Inr (if PassesUserCheck ssl ?e' ownerPassword documentId then User else Owner, key))"
    by (rule Authenticate_RC4_results[where oValue = oValue and u = u and k = k
          and to = "drop 32 (m_oValue e)" and tu = "drop 32 (m_uValue e)"])
       (use f alg g flds in simp_all)
  have disp: "Authenticate ssl ?e' pw documentId c0 =
      (case Authenticate_RC4 ssl ?e' pw documentId (m_encryptionKey c0) of
         Inl err \<Rightarrow> Inl err
       | Inr (res, key) \<Rightarrow> Inr (c0\<lparr> m_AuthResult := res, m_encryptionKey := key,
                                    m_documentId := documentId \<rparr>))" for pw
    using flds(1) alg
    by (cases algorithm) (simp_all add: Authenticate_def Authenticate_AESV2_eq)
  show ?thesis
    using ens res disp by (intro exI[of _ ?e'] exI[of _ ?ctx] exI[of _ r]) auto
qed


subsection \<open>Family B\<close>

lemma computeHash_salt: "computeHash ssl p rv salt u = computeHash ssl p rv (take 8 salt) u"
  by (simp add: computeHash_def computeHash_rounds_def)

lemma computeHash_total:
  assumes "\<forall>key iv d. length (AesCbc ssl key iv d) = length d" and "length p \<le> 127"
  shows "\<exists>h. computeHash ssl p rv salt u = Inr h \<and> length h = 32"
proof (cases "5 < rv")
  case True
  let ?h = "digest_bytes 32 (SHA256 ssl (p @ take 8 salt @
              (case u of None \<Rightarrow> [] | Some u \<Rightarrow> take 48 u)))"
  have "32 \<le> length ?h"
    by (simp add: digest_bytes_def)
  from hardening_loop_bounds[OF assms(1) this, of p u 0 "[]" 32]
  obtain n b where "hardening_loop ssl p u 0 [] 32 ?h = Inr (n, b)" and "32 \<le> length b"
    by auto
  then show ?thesis
    using assms(2) True by (simp add: computeHash_def computeHash_rounds_def Let_def)
next
  case False
  then show ?thesis
    using assms(2) by (simp add: computeHash_def computeHash_rounds_def Let_def digest_bytes_def)
qed

lemma length_preprocessPassword: "preprocessPassword ssl pw = Inr p \<Longrightarrow> length p \<le> 127"
  by (auto simp: preprocessPassword_def split: option.splits if_splits)

lemma length_generate_salts:
  "generate_salts ssl n r = ((v, k), r') \<Longrightarrow> length v = n \<and> length k = n"
  by (induction n arbitrary: r v k r') (auto split: prod.splits)

lemma computeUserKey_form:
  assumes "\<forall>key iv d. length (AesCbc ssl key iv d) = length d" and "length upw \<le> 127"
    and "computeUserKey ssl r upw rv kl key uV ueV = Inr (uV', ueV', r')"
  shows "\<exists>h vS kS h2. length h = 32 \<and> length vS = 8 \<and> length kS = 8
           \<and> computeHash ssl upw rv vS None = Inr h
           \<and> computeHash ssl upw rv kS None = Inr h2
           \<and> uV' = h @ vS @ kS @ drop 48 uV"
proof -
  obtain vS kS r1 where s: "generate_salts ssl 8 r = ((vS, kS), r1)"
    by (metis prod.exhaust)
  have ls: "length vS = 8" "length kS = 8"
    using length_generate_salts[OF s] by simp_all
  obtain h where h: "computeHash ssl upw rv vS None = Inr h" "length h = 32"
    using computeHash_total[OF assms(1,2)] by blast
  obtain h2 where h2: "computeHash ssl upw rv kS None = Inr h2"
    using computeHash_total[OF assms(1,2)] by blast
  have "uV' = h @ vS @ kS @ drop 48 uV"
    using assms(3) s h h2 ls
    by (auto simp: computeUserKey_def memcpy_def Let_def split: if_splits)
  then show ?thesis
    using h h2 ls by blast
qed

lemma computeOwnerKey_form:
  assumes "\<forall>key iv d. length (AesCbc ssl key iv d) = length d" and "length opw \<le> 127"
    and "computeOwnerKey ssl r opw rv kl key uV oV oeV = Inr (oV', oeV', r')"
  shows "\<exists>h vS kS h2. length h = 32 \<and> length vS = 8 \<and> length kS = 8
           \<and> computeHash ssl opw rv vS (Some uV) = Inr h
           \<and> computeHash ssl opw rv kS (Some uV) = Inr h2
           \<and> oV' = h @ vS @ kS @ drop 48 oV"
proof -
  obtain vS kS r1 where s: "generate_salts ssl 8 r = ((vS, kS), r1)"
    by (metis prod.exhaust)
  have ls: "length vS = 8" "length kS = 8"
    using length_generate_salts[OF s] by simp_all
  obtain h where h: "computeHash ssl opw rv vS (Some uV) = Inr h" "length h = 32"
    using computeHash_total[OF assms(1,2)] by blast
  obtain h2 where h2: "computeHash ssl opw rv kS (Some uV) = Inr h2"
    using computeHash_total[OF assms(1,2)] by blast
  have "oV' = h @ vS @ kS @ drop 48 oV"
    using assms(3) s h h2 ls
    by (auto simp: computeOwnerKey_def memcpy_def Let_def split: if_splits)
  then show ?thesis
    using h h2 ls by blast
qed

lemma Authenticate_AESV3_results:
  assumes aes: "\<forall>key iv d. length (AesCbc ssl key iv d) = length d"
    and alg: "m_Algorithm e = AESV3R5 \<or> m_Algorithm e = AESV3R6"
    and kl: "GetKeyLengthBytes e = 32"
    and pu: "preprocessPassword ssl userPassword = Inr upw"
    and po: "preprocessPassword ssl ownerPassword = Inr opw"
    and u: "m_uValue e = h @ vS @ kS @ tu" "length h = 32" "length vS = 8" "length kS = 8"
    and hu: "computeHash ssl upw (m_rValue e) vS None = Inr h"
    and o: "m_oValue e = hO @ vSo @ kSo @ to" "length hO = 32" "length vSo = 8" "length kSo = 8"
    and ho: "computeHash ssl opw (m_rValue e) vSo (Some (m_uValue e)) = Inr hO"
  shows "(\<exists>key. Authenticate_AESV3 ssl e userPassword key0 = Inr (User, key))
       \<and> (\<exists>key. Authenticate_AESV3 ssl e ownerPassword key0
               = Inr (if PassesUserCheck ssl e ownerPassword documentId then User else Owner, key))"
proof -
  have kl32: "GetKeyLengthBytes e \<le> 32" using kl by simp
  have lu: "length upw \<le> 127" and lo: "length opw \<le> 127"
    using length_preprocessPassword pu po by blast+
  have s1: "take 8 (drop 32 (m_uValue e)) = vS" "take 8 (drop 40 (m_uValue e)) = kS"
    using u by simp_all
  have s2: "take 8 (drop 32 (m_oValue e)) = vSo" "take 8 (drop 40 (m_oValue e)) = kSo"
    using o by simp_all
  have h1: "computeHash ssl upw (m_rValue e) (drop 32 (m_uValue e)) None = Inr h"
    using hu computeHash_salt[of ssl upw "m_rValue e" "drop 32 (m_uValue e)" None] s1 by simp
  obtain h2 where h2: "computeHash ssl upw (m_rValue e) (drop 40 (m_uValue e)) None = Inr h2"
    using computeHash_total[OF aes lu] by blast
  have c1: "CheckKey e h (m_uValue e) = Inr True"
    using CheckKey_same_prefix[OF kl32 u(2), of "[]" "vS @ kS @ tu"] u(1) by simp
  have user: "\<exists>key. Authenticate_AESV3 ssl e userPassword key0 = Inr (User, key)"
    using pu h1 c1 h2 by (simp add: Authenticate_AESV3_def)
  obtain h' where h': "computeHash ssl opw (m_rValue e) (drop 32 (m_uValue e)) None = Inr h'"
    using computeHash_total[OF aes lo] by blast
  obtain b where b: "CheckKey e h' (m_uValue e) = Inr b"
    using CheckKey_total[OF kl32] by blast
  have p: "PassesUserCheck ssl e ownerPassword documentId = b"
    using alg po h' b by (auto simp: PassesUserCheck_def)
  obtain h2' where h2': "computeHash ssl opw (m_rValue e) (drop 40 (m_uValue e)) None = Inr h2'"
    using computeHash_total[OF aes lo] by blast
  have h3: "computeHash ssl opw (m_rValue e) (drop 32 (m_oValue e)) (Some (m_uValue e)) = Inr hO"
    using ho computeHash_salt[of ssl opw "m_rValue e" "drop 32 (m_oValue e)" "Some (m_uValue e)"] s2
    by simp
  have c3: "CheckKey e hO (m_oValue e) = Inr True"
    using CheckKey_same_prefix[OF kl32 o(2), of "[]" "vSo @ kSo @ to"] o(1) by simp
  obtain h4 where h4: "computeHash ssl opw (m_rValue e) (drop 40 (m_oValue e)) (Some (m_uValue e)) = Inr h4"
    using computeHash_total[OF aes lo] by blast
  have "\<exists>key. Authenticate_AESV3 ssl e ownerPassword key0 = Inr (if b then User else Owner, key)"
    using po h' b h2' h3 c3 h4 by (simp add: Authenticate_AESV3_def)
  then show ?thesis
    using user p by simp
qed


lemma GenerateEncryptionKey_AESV3_form:
  assumes aes: "\<forall>key iv d. length (AesCbc ssl key iv d) = length d"
    and gen: "GenerateEncryptionKey_AESV3 ssl now r e key0 = Inr (e1, key, r')"
  obtains upw opw h vS kS hO vSo kSo where
    "preprocessPassword ssl (m_userPass e) = Inr upw"
    "preprocessPassword ssl (m_ownerPass e) = Inr opw"
    "length h = 32" "length vS = 8" "length kS = 8"
    "length hO = 32" "length vSo = 8" "length kSo = 8"
    "m_uValue e1 = h @ vS @ kS @ drop 48 (m_uValue e)"
    "computeHash ssl upw (m_rValue e) vS None = Inr h"
    "m_oValue e1 = hO @ vSo @ kSo @ drop 48 (m_oValue e)"
    "computeHash ssl opw (m_rValue e) vSo (Some (m_uValue e1)) = Inr hO"
    "m_rValue e1 = m_rValue e" "m_KeyLength e1 = m_KeyLength e" "m_Algorithm e1 = m_Algorithm e"
proof -
  let ?kl = "GetKeyLengthBytes e"
  note d = GenerateEncryptionKey_AESV3_def
  obtain upw where pu: "preprocessPassword ssl (m_userPass e) = Inr upw"
    using gen by (cases "preprocessPassword ssl (m_userPass e)") (simp_all add: d)
  obtain opw where po: "preprocessPassword ssl (m_ownerPass e) = Inr opw"
    using gen pu by (cases "preprocessPassword ssl (m_ownerPass e)") (simp_all add: d)
  obtain kr where ck0: "computeEncryptionKey ssl now r ?kl key0 = Inr kr"
    using gen pu po by (cases "computeEncryptionKey ssl now r ?kl key0") (simp_all add: d)
  obtain k r1 where kr: "kr = (k, r1)"
    by (cases kr)
  note ck = ck0[unfolded kr]
  obtain ur where cu0:
    "computeUserKey ssl r1 upw (m_rValue e) ?kl k (m_uValue e) (m_ueValue e) = Inr ur"
    using gen pu po ck
    by (cases "computeUserKey ssl r1 upw (m_rValue e) ?kl k (m_uValue e) (m_ueValue e)")
       (simp_all add: d)
  obtain uV ueV r2 where ur: "ur = (uV, ueV, r2)"
    by (cases ur)
  note cu = cu0[unfolded ur]
  obtain or where co0:
    "computeOwnerKey ssl r2 opw (m_rValue e) ?kl k uV (m_oValue e) (m_oeValue e) = Inr or"
    using gen pu po ck cu
    by (cases "computeOwnerKey ssl r2 opw (m_rValue e) ?kl k uV (m_oValue e) (m_oeValue e)")
       (simp_all add: d)
  obtain oV oeV r3 where or: "or = (oV, oeV, r3)"
    by (cases or)
  note co = co0[unfolded or]
  have e1: "e1 = e\<lparr> m_uValue := uV, m_ueValue := ueV, m_oValue := oV, m_oeValue := oeV,
                  m_permsValue := memcpy (m_permsValue e)
                                    (AesCbc ssl k (replicate 16 0) (perms_bytes e)) 16 \<rparr>"
    using gen by (auto simp add: d pu po ck cu co)
  have lu: "length upw \<le> 127" and lo: "length opw \<le> 127"
    using length_preprocessPassword pu po by blast+
  from computeUserKey_form[OF aes lu cu] obtain h vS kS where
    fu: "length h = 32" "length vS = 8" "length kS = 8"
        "computeHash ssl upw (m_rValue e) vS None = Inr h"
        "uV = h @ vS @ kS @ drop 48 (m_uValue e)"
    by blast
  from computeOwnerKey_form[OF aes lo co] obtain hO vSo kSo where
    fo: "length hO = 32" "length vSo = 8" "length kSo = 8"
        "computeHash ssl opw (m_rValue e) vSo (Some uV) = Inr hO"
        "oV = hO @ vSo @ kSo @ drop 48 (m_oValue e)"
    by blast
  have u1: "m_uValue e1 = uV" and o1: "m_oValue e1 = oV" and r1': "m_rValue e1 = m_rValue e"
    and k1: "m_KeyLength e1 = m_KeyLength e" and a1: "m_Algorithm e1 = m_Algorithm e"
    by (simp_all add: e1)
  show thesis
  proof (rule that[of upw opw h vS kS hO vSo kSo])
    show "preprocessPassword ssl (m_userPass e) = Inr upw" by (rule pu)
    show "preprocessPassword ssl (m_ownerPass e) = Inr opw" by (rule po)
    show "length h = 32" "length vS = 8" "length kS = 8" by (rule fu)+
    show "length hO = 32" "length vSo = 8" "length kSo = 8" by (rule fo)+
    show "m_uValue e1 = h @ vS @ kS @ drop 48 (m_uValue e)" using u1 fu(5) by simp
    show "computeHash ssl upw (m_rValue e) vS None = Inr h" by (rule fu(4))
    show "m_oValue e1 = hO @ vSo @ kSo @ drop 48 (m_oValue e)" using o1 fo(5) by simp
    show "computeHash ssl opw (m_rValue e) vSo (Some (m_uValue e1)) = Inr hO"
      using u1 fo(4) by simp
    show "m_rValue e1 = m_rValue e" by (rule r1')
    show "m_KeyLength e1 = m_KeyLength e" by (rule k1)
    show "m_Algorithm e1 = m_Algorithm e" by (rule a1)
  qed
qed

lemma PdfEncryptAESV3_scratch_fields:
  assumes "PdfEncryptAESV3_scratch userPassword ownerPassword rv protection = Inr e"
  shows "m_Algorithm e = (if rv = 6 then AESV3R6 else AESV3R5) \<and> m_userPass e = userPassword
       \<and> m_ownerPass e = ownerPassword \<and> \<not> m_initialized e \<and> GetKeyLengthBytes e = 32"
proof -
  have "e = PdfEncrypt_new\<lparr> m_ueValue := replicate 32 0, m_oeValue := replicate 32 0,
                                 m_permsValue := replicate 16 0,
                   m_userPass := userPassword, m_ownerPass := ownerPassword,
                   m_Algorithm := (if rv = 6 then AESV3R6 else AESV3R5), m_KeyLength := 256,
                   m_rValue := rv, m_pValue := PERMS_DEFAULT OR protection,
                   m_EncryptMetadata := True \<rparr>"
    using assms unfolding PdfEncryptAESV3_scratch_def InitFromScratch_def
    by simp
  then have "m_Algorithm e = (if rv = 6 then AESV3R6 else AESV3R5)" "m_userPass e = userPassword"
    "m_ownerPass e = ownerPassword" "m_initialized e = m_initialized PdfEncrypt_new"
    "m_KeyLength e = 256"
    by simp_all
  then show ?thesis
    by (simp add: PdfEncrypt_new_def GetKeyLengthBytes_def)
qed

lemma Create_AESV3:
  assumes "Create hasRc4 userPassword ownerPassword protection algorithm keyLength = Inr e"
    and "algorithm = AESV3R5 \<or> algorithm = AESV3R6"
  shows "PdfEncryptAESV3_scratch userPassword ownerPassword (if algorithm = AESV3R6 then 6 else 5)
           protection = Inr e"
proof (cases "algorithm = AESV3R5")
  case True
  then show ?thesis
    using assms(1) by (simp add: Create_def IsEncryptionEnabled_def split: if_splits)
next
  case False
  then have "algorithm = AESV3R6" using assms(2) by simp
  then show ?thesis
    using assms(1) by (simp add: Create_def IsEncryptionEnabled_def split: if_splits)
qed

lemma Create_AESV3_fields:
  assumes "Create hasRc4 userPassword ownerPassword protection algorithm keyLength = Inr e"
    and "algorithm = AESV3R5 \<or> algorithm = AESV3R6"
  shows "m_Algorithm e = algorithm \<and> m_userPass e = userPassword \<and> m_ownerPass e = ownerPassword
       \<and> \<not> m_initialized e \<and> GetKeyLengthBytes e = 32"
  using PdfEncryptAESV3_scratch_fields[OF Create_AESV3[OF assms]] assms(2)
  by auto

text \<open>Family B: when key generation has succeeded, the two passwords authenticate.\<close>

lemma Authenticate_created_AESV3:
  assumes aes: "\<forall>key iv d. length (AesCbc ssl key iv d) = length d"
    and c: "Create hasRc4 userPassword ownerPassword protection algorithm keyLength = Inr e"
    and alg: "algorithm = AESV3R5 \<or> algorithm = AESV3R6"
    and ens: "EnsureEncryptionInitialized ssl now r e documentId context = Inr (e', context', r')"
  shows "(\<exists>c. Authenticate ssl e' userPassword documentId c0 = Inr c \<and> m_AuthResult c = User)
       \<and> (\<exists>c. Authenticate ssl e' ownerPassword documentId c0 = Inr c
               \<and> m_AuthResult c = (if PassesUserCheck ssl e' ownerPassword documentId
                                    then User else Owner))"
proof -
  note f = Create_AESV3_fields[OF c alg]
  have ni: "\<not> m_initialized e" and a: "m_Algorithm e = algorithm"
    and up: "m_userPass e = userPassword" and op: "m_ownerPass e = ownerPassword"
    and kl: "GetKeyLengthBytes e = 32"
    using f by simp_all
  have gdisp: "GenerateEncryptionKey ssl now r e documentId (m_encryptionKey context)
               = GenerateEncryptionKey_AESV3 ssl now r e (m_encryptionKey context)"
    using a alg by (auto simp: GenerateEncryptionKey_def)
  obtain e1 key r1 where
    gen: "GenerateEncryptionKey_AESV3 ssl now r e (m_encryptionKey context) = Inr (e1, key, r1)"
    using ens ni gdisp
    by (cases "GenerateEncryptionKey_AESV3 ssl now r e (m_encryptionKey context)")
       (auto simp: EnsureEncryptionInitialized_def)
  have e': "e' = (clearSensitiveInfo e1)\<lparr> m_initialized := True \<rparr>"
    using ens ni gdisp gen by (simp add: EnsureEncryptionInitialized_def)
  obtain upw opw h vS kS hO vSo kSo where g:
    "preprocessPassword ssl (m_userPass e) = Inr upw"
    "preprocessPassword ssl (m_ownerPass e) = Inr opw"
    "length h = 32" "length vS = 8" "length kS = 8"
    "length hO = 32" "length vSo = 8" "length kSo = 8"
    "m_uValue e1 = h @ vS @ kS @ drop 48 (m_uValue e)"
    "computeHash ssl upw (m_rValue e) vS None = Inr h"
    "m_oValue e1 = hO @ vSo @ kSo @ drop 48 (m_oValue e)"
    "computeHash ssl opw (m_rValue e) vSo (Some (m_uValue e1)) = Inr hO"
    "m_rValue e1 = m_rValue e" "m_KeyLength e1 = m_KeyLength e" "m_Algorithm e1 = m_Algorithm e"
    by (rule GenerateEncryptionKey_AESV3_form[OF aes gen])
  have flds: "m_Algorithm e' = algorithm" "GetKeyLengthBytes e' = 32"
    "m_uValue e' = m_uValue e1" "m_oValue e' = m_oValue e1" "m_rValue e' = m_rValue e"
    using a kl g(13,14,15) e' by (simp_all add: clearSensitiveInfo_def GetKeyLengthBytes_def)
  have alg': "m_Algorithm e' = AESV3R5 \<or> m_Algorithm e' = AESV3R6"
    using flds(1) alg by simp
  have res: "(\<exists>key. Authenticate_AESV3 ssl e' userPassword (m_encryptionKey c0) = Inr (User, key))
       \<and> (\<exists>key. Authenticate_AESV3 ssl e' ownerPassword (m_encryptionKey c0)
               = Inr (if PassesUserCheck ssl e' ownerPassword documentId then User else Owner, key))"
  proof (rule Authenticate_AESV3_results[where upw = upw and opw = opw and h = h and vS = vS
          and kS = kS and hO = hO and vSo = vSo and kSo = kSo
          and tu = "drop 48 (m_uValue e)" and to = "drop 48 (m_oValue e)"])
    show "\<forall>key iv d. length (AesCbc ssl key iv d) = length d" by (rule aes)
    show "m_Algorithm e' = AESV3R5 \<or> m_Algorithm e' = AESV3R6" by (rule alg')
    show "GetKeyLengthBytes e' = 32" by (rule flds(2))
    show "preprocessPassword ssl userPassword = Inr upw" using g(1) up by simp
    show "preprocessPassword ssl ownerPassword = Inr opw" using g(2) op by simp
    show "m_uValue e' = h @ vS @ kS @ drop 48 (m_uValue e)" using flds(3) g(9) by simp
    show "length h = 32" "length vS = 8" "length kS = 8" by (rule g)+
    show "computeHash ssl upw (m_rValue e') vS None = Inr h" using flds(5) g(10) by simp
    show "m_oValue e' = hO @ vSo @ kSo @ drop 48 (m_oValue e)" using flds(4) g(11) by simp
    show "length hO = 32" "length vSo = 8" "length kSo = 8" by (rule g)+
    show "computeHash ssl opw (m_rValue e') vSo (Some (m_uValue e')) = Inr hO"
      using flds(3,5) g(12) by simp
  qed
  have disp: "Authenticate ssl e' pw documentId c0 =
      (case Authenticate_AESV3 ssl e' pw (m_encryptionKey c0) of
         Inl err \<Rightarrow> Inl err
       | Inr (res, key) \<Rightarrow> Inr (c0\<lparr> m_AuthResult := res, m_encryptionKey := key,
                                    m_documentId := documentId \<rparr>))" for pw
    using alg' by (auto simp: Authenticate_def)
  from res obtain k1 k2 where
    r1: "Authenticate_AESV3 ssl e' userPassword (m_encryptionKey c0) = Inr (User, k1)" and
    r2: "Authenticate_AESV3 ssl e' ownerPassword (m_encryptionKey c0)
         = Inr (if PassesUserCheck ssl e' ownerPassword documentId then User else Owner, k2)"
    by blast
  show ?thesis
    by (simp add: disp r1 r2)
qed

lemma Authenticate_created:
  assumes "\<forall>key iv d. length (AesCbc ssl key iv d) = length d"
    and "Create hasRc4 userPassword ownerPassword protection algorithm keyLength = Inr e"
    and "EnsureEncryptionInitialized ssl now r e documentId context = Inr (e', context', r')"
  shows "(\<exists>c. Authenticate ssl e' userPassword documentId c0 = Inr c \<and> m_AuthResult c = User)
       \<and> (\<exists>c. Authenticate ssl e' ownerPassword documentId c0 = Inr c
               \<and> m_AuthResult c = (if PassesUserCheck ssl e' ownerPassword documentId
                                    then User else Owner))"
proof (cases "algorithm = AESV3R5 \<or> algorithm = AESV3R6")
  case True
  show ?thesis
    by (rule Authenticate_created_AESV3[OF assms(1,2) True assms(3)])
next
  case False
  then have alg: "algorithm \<noteq> AESV3R5" "algorithm \<noteq> AESV3R6"
    by simp_all
  from Authenticate_created_MD5[OF assms(2) alg, of ssl now r documentId "context" c0] assms(3)
  show ?thesis
    by auto
qed

text \<open>A password that is the user password and the owner password passes the user check.\<close>

lemma PassesUserCheck_same_password:
  assumes "\<forall>key iv d. length (AesCbc ssl key iv d) = length d"
    and "Create hasRc4 password password protection algorithm keyLength = Inr e"
    and "EnsureEncryptionInitialized ssl now r e documentId context = Inr (e', context', r')"
  shows "PassesUserCheck ssl e' password documentId"
proof (rule ccontr)
  assume n: "\<not> PassesUserCheck ssl e' password documentId"
  from Authenticate_created[OF assms, of PdfEncryptContext_new] n
  obtain c c' where "Authenticate ssl e' password documentId PdfEncryptContext_new = Inr c"
    "m_AuthResult c = User"
    "Authenticate ssl e' password documentId PdfEncryptContext_new = Inr c'"
    "m_AuthResult c' = Owner"
    by auto
  then show False
    by simp
qed

text \<open>
  Claim C1, as the code has it. After \<open>Create\<close> and key generation
  (\<open>EnsureEncryptionInitialized\<close>), in every algorithm family, \<open>Authenticate\<close> with the
  user password gives User. With the owner password it gives Owner, unless the owner
  password passes the user-password check that \<open>Authenticate\<close> tries first, as it does
  when the two passwords are equal: then it gives User. For Family A key generation
  always succeeds (lemma \<open>Authenticate_created_MD5\<close>); for Family B it needs SASLprep to
  accept both passwords. The AES primitive is taken to return as many bytes as it is
  given (the Revision 6 hash asserts it).
\<close>

theorem Authenticate_after_creation:
  assumes "\<forall>key iv d. length (AesCbc ssl key iv d) = length d"
    and "Create hasRc4 userPassword ownerPassword protection algorithm keyLength = Inr e"
    and "EnsureEncryptionInitialized ssl now r e documentId context = Inr (e', context', r')"
  shows "(\<exists>c. Authenticate ssl e' userPassword documentId c0 = Inr c \<and> m_AuthResult c = User)
       \<and> (\<exists>c. Authenticate ssl e' ownerPassword documentId c0 = Inr c
               \<and> m_AuthResult c = (if PassesUserCheck ssl e' ownerPassword documentId
                                    then User else Owner))"
  by (rule Authenticate_created[OF assms])

lemma test_backend_aes: "\<forall>key iv d. length (AesCbc test_backend key iv d) = length d"
  by (simp add: test_backend_def)

theorem Authenticate_after_creation_witness:
  "\<exists>e e' context' r' c.
     Create True [0x75, 0x73, 0x65, 0x72] [0x6F, 0x77, 0x6E, 0x65, 0x72] 4 RC4V2 128 = Inr e
   \<and> EnsureEncryptionInitialized test_backend 0 \<lparr> seed = 0, draws = 0 \<rparr> e [1, 2, 3]
        PdfEncryptContext_new = Inr (e', context', r')
   \<and> Authenticate test_backend e' [0x75, 0x73, 0x65, 0x72] [1, 2, 3] PdfEncryptContext_new = Inr c
   \<and> m_AuthResult c = User"
proof -
  obtain e where e: "Create True [0x75, 0x73, 0x65, 0x72] [0x6F, 0x77, 0x6E, 0x65, 0x72] 4 RC4V2 128
                     = Inr e"
    by (simp add: Create_def IsEncryptionEnabled_def PdfEncryptRC4_scratch_def
        KeyLength_Unknown_def InitFromScratch_def)
  have alg: "RC4V2 \<noteq> AESV3R5" "RC4V2 \<noteq> AESV3R6"
    by simp_all
  from Authenticate_created_MD5[OF e alg, of test_backend 0 "\<lparr> seed = 0, draws = 0 \<rparr>" "[1, 2, 3]"
      PdfEncryptContext_new PdfEncryptContext_new]
  obtain e' context' r' where
    ens: "EnsureEncryptionInitialized test_backend 0 \<lparr> seed = 0, draws = 0 \<rparr> e [1, 2, 3]
            PdfEncryptContext_new = Inr (e', context', r')"
    by blast
  from Authenticate_after_creation[OF test_backend_aes e ens, of PdfEncryptContext_new]
  obtain c where "Authenticate test_backend e' [0x75, 0x73, 0x65, 0x72] [1, 2, 3]
                    PdfEncryptContext_new = Inr c" "m_AuthResult c = User"
    by blast
  then show ?thesis
    using e ens by blast
qed

text \<open>
  The claim C1 as stated fails when the two passwords are the same: for the AES-128
  descriptor created with user password and owner password "pw", authenticating with
  the owner password gives User, not Owner.
\<close>

theorem Authenticate_same_password_counterexample:
  "\<exists>e e' context' r' c.
     Create True [0x70, 0x77] [0x70, 0x77] 4 AESV2 0 = Inr e
   \<and> EnsureEncryptionInitialized test_backend 0 \<lparr> seed = 0, draws = 0 \<rparr> e [1, 2, 3]
        PdfEncryptContext_new = Inr (e', context', r')
   \<and> Authenticate test_backend e' [0x70, 0x77] [1, 2, 3] PdfEncryptContext_new = Inr c
   \<and> m_AuthResult c = User \<and> m_AuthResult c \<noteq> Owner"
proof -
  obtain e where e: "Create True [0x70, 0x77] [0x70, 0x77] 4 AESV2 0 = Inr e"
    by (simp add: Create_def IsEncryptionEnabled_def PdfEncryptAESV2_scratch_def
        KeyLength_Unknown_def InitFromScratch_def)
  have alg: "AESV2 \<noteq> AESV3R5" "AESV2 \<noteq> AESV3R6"
    by simp_all
  from Authenticate_created_MD5[OF e alg, of test_backend 0 "\<lparr> seed = 0, draws = 0 \<rparr>" "[1, 2, 3]"
      PdfEncryptContext_new PdfEncryptContext_new]
  obtain e' context' r' c where
    "EnsureEncryptionInitialized test_backend 0 \<lparr> seed = 0, draws = 0 \<rparr> e [1, 2, 3]
            PdfEncryptContext_new = Inr (e', context', r')"
    "Authenticate test_backend e' [0x70, 0x77] [1, 2, 3] PdfEncryptContext_new = Inr c"
    "m_AuthResult c = User"
    by blast
  then show ?thesis
    using e by auto
qed

section \<open>Selection of the algorithm from the encryption dictionary\<close>














end
